theory Spec2Isabelle
  imports Main "HOL-Library.Log_Nat" "HOL-Library.Sublist"
begin

section \<open>Python values and exceptions\<close>

text \<open>
  The three scripts \<^verbatim>\<open>agent.py\<close>, \<^verbatim>\<open>job_form.py\<close> and \<^verbatim>\<open>app.py\<close> receive
  function calls whose arguments are a dictionary from names to values. The values
  that the action schema allows are integers, strings, booleans and a nested
  dictionary (the safety decision).
\<close>

datatype pyval =
    PInt int
  | PStr string
  | PBool bool
  | PDict "(string \<times> pyval) list"

datatype exc_class =
    KeyError | TypeError | AttributeError | OverflowError | ValueError | EOFError
  | PlaywrightError | APIError

text \<open>An exception is its class and the text that \<^verbatim>\<open>str(e)\<close> returns.\<close>

datatype pyexc = Exc exc_class string

fun str_exc :: "pyexc \<Rightarrow> string" where
  "str_exc (Exc c m) = m"

fun type_name :: "pyval \<Rightarrow> string" where
  "type_name (PInt n) = ''int''"
| "type_name (PStr s) = ''str''"
| "type_name (PBool b) = ''bool''"
| "type_name (PDict d) = ''dict''"

definition quoted :: "string \<Rightarrow> string" where
  "quoted s = CHR 0x27 # s @ [CHR 0x27]"

text \<open>Truth value of an object, as \<^verbatim>\<open>if v:\<close> takes it.\<close>

fun truthy :: "pyval \<Rightarrow> bool" where
  "truthy (PInt n) = (n \<noteq> 0)"
| "truthy (PStr s) = (s \<noteq> [])"
| "truthy (PBool b) = b"
| "truthy (PDict d) = (d \<noteq> [])"

text \<open>\<^verbatim>\<open>args[k]\<close>: a missing key raises \<^verbatim>\<open>KeyError\<close>, whose text is the quoted key.\<close>

definition subscript :: "(string \<rightharpoonup> pyval) \<Rightarrow> string \<Rightarrow> pyexc + pyval" where
  "subscript args k =
     (case args k of None \<Rightarrow> Inl (Exc KeyError (quoted k)) | Some v \<Rightarrow> Inr v)"

text \<open>\<^verbatim>\<open>args.get(k, d)\<close>.\<close>

definition get_default :: "(string \<rightharpoonup> pyval) \<Rightarrow> string \<Rightarrow> pyval \<Rightarrow> pyval" where
  "get_default args k d = (case args k of None \<Rightarrow> d | Some v \<Rightarrow> v)"

section \<open>Double-precision arithmetic of the coordinate mapper\<close>

text \<open>
  \<^verbatim>\<open>int(x / 1000 * SCREEN_WIDTH)\<close> is computed in binary64 floating point: the true
  division of two integers is rounded to the nearest double (ties to even), the
  product with the width is rounded again, and \<^verbatim>\<open>int\<close> truncates toward zero.
  A finite double is \<open>Fin m e\<close>, of value \<open>m * 2 ^ e\<close>; every value that occurs here
  is zero or of magnitude at least \<open>2 ^ - 10\<close>, so subnormal numbers do not occur.
\<close>

datatype pyfloat = Fin int int | Inf

text \<open>
  The quotient \<open>q\<close> of a division by \<open>b\<close> with remainder \<open>r\<close>, rounded to the nearest
  integer, a tie to the even one.
\<close>

definition round_up :: "int \<Rightarrow> int \<Rightarrow> int \<Rightarrow> int" where
  "round_up q r b = (if b < 2 * r \<or> (2 * r = b \<and> odd q) then q + 1 else q)"

definition round_half_even :: "int \<Rightarrow> int \<Rightarrow> int" where
  "round_half_even a b = round_up (a div b) (a mod b) b"

text \<open>Whether \<open>2 ^ k \<le> a / b\<close>, for positive \<open>b\<close> and any integer \<open>k\<close>.\<close>

definition scaled_ge :: "int \<Rightarrow> int \<Rightarrow> int \<Rightarrow> bool" where
  "scaled_ge a b k = (if 0 \<le> k then b * 2 ^ nat k \<le> a else b \<le> a * 2 ^ nat (- k))"

text \<open>
  The integer \<open>k\<close> with \<open>2 ^ k \<le> a / b < 2 ^ (k + 1)\<close>, for positive \<open>a\<close> and \<open>b\<close>: the
  difference of the bit lengths, or one less.
\<close>

definition pick_exp :: "int \<Rightarrow> int \<Rightarrow> int \<Rightarrow> int" where
  "pick_exp a b k = (if scaled_ge a b k then k else k - 1)"

definition floor_log2 :: "int \<Rightarrow> int \<Rightarrow> int" where
  "floor_log2 a b = pick_exp a b (bitlen a - bitlen b)"

text \<open>\<open>a / b * 2 ^ s\<close> rounded to the nearest integer, a tie to the even one.\<close>

definition round_scaled :: "int \<Rightarrow> int \<Rightarrow> int \<Rightarrow> int" where
  "round_scaled a b s =
     (if 0 \<le> s then round_half_even (a * 2 ^ nat s) b
      else round_half_even a (b * 2 ^ nat (- s)))"

text \<open>
  The double of sign \<open>s\<close>, binary exponent \<open>ex\<close> and 53-bit significand \<open>m\<close>; it is
  infinite from \<open>2 ^ 1024\<close> on.
\<close>

definition pack :: "int \<Rightarrow> int \<Rightarrow> int \<Rightarrow> pyfloat" where
  "pack s ex m =
     (if 1024 \<le> ex \<or> (ex = 1023 \<and> m = 2 ^ 53) then Inf else Fin (s * m) (ex - 52))"

definition round_at :: "int \<Rightarrow> int \<Rightarrow> int \<Rightarrow> int \<Rightarrow> pyfloat" where
  "round_at s a b ex = pack s ex (round_scaled a b (52 - ex))"

text \<open>
  The double nearest to \<open>a / b\<close> (\<open>b\<close> positive): 53 significant bits, ties to even.
\<close>

definition round_double :: "int \<Rightarrow> int \<Rightarrow> pyfloat" where
  "round_double a b =
     (if a = 0 then Fin 0 0 else round_at (sgn a) \<bar>a\<bar> b (floor_log2 \<bar>a\<bar> b))"

text \<open>\<^verbatim>\<open>x / y\<close> on two integers, \<open>y\<close> positive.\<close>

definition int_truediv :: "int \<Rightarrow> int \<Rightarrow> pyexc + pyfloat" where
  "int_truediv x y =
     (case round_double x y of
        Inf \<Rightarrow> Inl (Exc OverflowError ''integer division result too large for a float'')
      | Fin m e \<Rightarrow> Inr (Fin m e))"

text \<open>\<^verbatim>\<open>float(n)\<close>, the conversion that \<^verbatim>\<open>f * n\<close> applies to its integer operand.\<close>

definition float_of_int :: "int \<Rightarrow> pyexc + pyfloat" where
  "float_of_int n =
     (case round_double n 1 of
        Inf \<Rightarrow> Inl (Exc OverflowError ''int too large to convert to float'')
      | Fin m e \<Rightarrow> Inr (Fin m e))"

text \<open>The product of two doubles: the exact product, rounded.\<close>

fun float_mul :: "pyfloat \<Rightarrow> pyfloat \<Rightarrow> pyfloat" where
  "float_mul (Fin m1 e1) (Fin m2 e2) =
     (if 0 \<le> e1 + e2 then round_double (m1 * m2 * 2 ^ nat (e1 + e2)) 1
      else round_double (m1 * m2) (2 ^ nat (- (e1 + e2))))"
| "float_mul _ _ = Inf"

text \<open>\<^verbatim>\<open>int(f)\<close>: truncation toward zero.\<close>

fun int_of_float :: "pyfloat \<Rightarrow> pyexc + int" where
  "int_of_float (Fin m e) =
     Inr (if 0 \<le> e then m * 2 ^ nat e else sgn m * (\<bar>m\<bar> div 2 ^ nat (- e)))"
| "int_of_float Inf = Inl (Exc OverflowError ''cannot convert float infinity to integer'')"

text \<open>\<^verbatim>\<open>int(x / 1000 * extent)\<close> on an integer \<open>x\<close>.\<close>

definition scale_coord :: "int \<Rightarrow> int \<Rightarrow> pyexc + int" where
  "scale_coord x extent =
     (case int_truediv x 1000 of
        Inl err \<Rightarrow> Inl err
      | Inr q \<Rightarrow>
          (case float_of_int extent of
             Inl err \<Rightarrow> Inl err
           | Inr w \<Rightarrow> int_of_float (float_mul q w)))"

text \<open>
  The same on any argument value: a boolean is the integer 0 or 1, and dividing a
  string or a dictionary by an integer raises \<^verbatim>\<open>TypeError\<close>.
\<close>

fun denormalize :: "pyval \<Rightarrow> int \<Rightarrow> pyexc + int" where
  "denormalize (PInt x) extent = scale_coord x extent"
| "denormalize (PBool b) extent = scale_coord (if b then 1 else 0) extent"
| "denormalize v extent =
     Inl (Exc TypeError (''unsupported operand type(s) for /: '' @ quoted (type_name v)
            @ '' and '' @ quoted ''int''))"

definition SCREEN_WIDTH :: int where
  "SCREEN_WIDTH = 1440"

definition SCREEN_HEIGHT :: int where
  "SCREEN_HEIGHT = 900"

text \<open>\<^verbatim>\<open>denorm_x\<close> and \<^verbatim>\<open>denorm_y\<close> of \<^verbatim>\<open>agent.py\<close> and \<^verbatim>\<open>job_form.py\<close>.\<close>

definition denorm_x :: "pyval \<Rightarrow> pyexc + int" where
  "denorm_x x = denormalize x SCREEN_WIDTH"

definition denorm_y :: "pyval \<Rightarrow> pyexc + int" where
  "denorm_y y = denormalize y SCREEN_HEIGHT"

text \<open>\<^verbatim>\<open>denormalize_x\<close> and \<^verbatim>\<open>denormalize_y\<close> of \<^verbatim>\<open>app.py\<close>.\<close>

definition denormalize_x :: "pyval \<Rightarrow> int \<Rightarrow> pyexc + int" where
  "denormalize_x x screen_width = denormalize x screen_width"

definition denormalize_y :: "pyval \<Rightarrow> int \<Rightarrow> pyexc + int" where
  "denormalize_y y screen_height = denormalize y screen_height"

text \<open>
  The mapper as the specification words it: the floor of the exact quotient
  \<open>n / 1000 * extent\<close>.
\<close>

definition spec_map :: "int \<Rightarrow> int \<Rightarrow> int" where
  "spec_map n extent = \<lfloor>rat_of_int n / 1000 * rat_of_int extent\<rfloor>"

section \<open>Strings\<close>

text \<open>
  Operator answers and direction words are taken as ASCII text: \<^verbatim>\<open>str.lower\<close> maps
  \<^verbatim>\<open>A\<close>..\<^verbatim>\<open>Z\<close> to \<^verbatim>\<open>a\<close>..\<^verbatim>\<open>z\<close>, and \<^verbatim>\<open>str.strip\<close> removes the ASCII white
  space (codes 9 to 13, 28 to 32) at both ends.
\<close>

definition lower_char :: "char \<Rightarrow> char" where
  "lower_char c =
     (let k = of_char c :: nat in if 65 \<le> k \<and> k \<le> 90 then char_of (k + 32) else c)"

definition lower :: "string \<Rightarrow> string" where
  "lower s = map lower_char s"

definition is_space :: "char \<Rightarrow> bool" where
  "is_space c = (let k = of_char c :: nat in (9 \<le> k \<and> k \<le> 13) \<or> (28 \<le> k \<and> k \<le> 32))"

definition strip :: "string \<Rightarrow> string" where
  "strip s = rev (dropWhile is_space (rev (dropWhile is_space s)))"

fun startswith :: "string \<Rightarrow> string \<Rightarrow> bool" where
  "startswith s [] = True"
| "startswith [] (p # ps) = False"
| "startswith (c # cs) (p # ps) = (c = p \<and> startswith cs ps)"

text \<open>
  \<^verbatim>\<open>int(s)\<close> on a string: white space around, an optional sign, then decimal digits
  that single underscores may separate. The text of the \<^verbatim>\<open>ValueError\<close> quotes the
  string (its \<^verbatim>\<open>repr\<close> when the string holds no quote, backslash or control
  character).
\<close>

definition is_digit :: "char \<Rightarrow> bool" where
  "is_digit c = (let k = of_char c :: nat in 48 \<le> k \<and> k \<le> 57)"

fun digits_ok :: "string \<Rightarrow> bool" where
  "digits_ok [] = False"
| "digits_ok [c] = is_digit c"
| "digits_ok (c # d # cs) =
     (is_digit c \<and> (if d = CHR ''_'' then digits_ok cs else digits_ok (d # cs)))"

definition decimal :: "string \<Rightarrow> int" where
  "decimal s = foldl (\<lambda>acc c. 10 * acc + (int (of_char c) - 48)) 0 (filter is_digit s)"

definition int_of_str :: "string \<Rightarrow> pyexc + int" where
  "int_of_str s =
     (let t = strip s;
          (neg, body) = (case t of
                            c # cs \<Rightarrow> if c = CHR ''-'' then (True, cs)
                                      else if c = CHR ''+'' then (False, cs) else (False, t)
                          | [] \<Rightarrow> (False, t))
      in if digits_ok body then Inr (if neg then - decimal body else decimal body)
         else Inl (Exc ValueError (''invalid literal for int() with base 10: '' @ quoted s)))"

text \<open>\<^verbatim>\<open>int(v)\<close> on an argument value.\<close>

fun py_int :: "pyval \<Rightarrow> pyexc + int" where
  "py_int (PInt n) = Inr n"
| "py_int (PBool b) = Inr (if b then 1 else 0)"
| "py_int (PStr s) = int_of_str s"
| "py_int (PDict d) =
     Inl (Exc TypeError
       (''int() argument must be a string, a bytes-like object or a real number, not ''
          @ quoted ''dict''))"

text \<open>
  \<^verbatim>\<open>str(v).lower() == word\<close> for a lower-case direction word: the text of an
  integer, of a boolean or of a dictionary is never such a word.
\<close>

fun str_lower_is :: "pyval \<Rightarrow> string \<Rightarrow> bool" where
  "str_lower_is (PStr s) word = (lower s = word)"
| "str_lower_is _ word = False"

section \<open>The browser, the operator and the world\<close>

text \<open>
  What the scripts do to the outside is recorded as a trace of events: the calls on
  the Playwright page, mouse and keyboard, \<^verbatim>\<open>time.sleep\<close> (in milliseconds), the
  request to the model and the release of the browser. A call is recorded when it is
  made, whether it then raises or not. What the scripts print on the terminal is
  left out.
\<close>

datatype event =
    GoBack
  | GoForward
  | Goto pyval
  | MouseClick int int
  | MouseMove int int
  | MouseMoveSteps int int nat
  | MouseDown
  | MouseUp
  | MouseWheel int int
  | KeyboardPress pyval
  | KeyboardType pyval
  | Evaluate string
  | WaitForLoadState "string option" nat
  | Screenshot
  | ReadUrl
  | Sleep nat
  | GenerateContent
  | BrowserClose
  | PlaywrightStop

type_synonym bytes = string

text \<open>
  The behaviour of the browser is a parameter: from the events so far, whether a call
  raises (and with which text), the bytes of a screenshot and the URL of the page.
\<close>

record browser =
  fails :: "event list \<Rightarrow> event \<Rightarrow> string option"
  screenshot_of :: "event list \<Rightarrow> bytes"
  url_of :: "event list \<Rightarrow> string"

text \<open>The state: the trace, and the lines the operator will still type.\<close>

record world =
  trace :: "event list"
  stdin :: "string list"

type_synonym 'a io = "world \<Rightarrow> (pyexc + 'a) \<times> world"

definition ret :: "'a \<Rightarrow> 'a io" where
  "ret a w = (Inr a, w)"

definition pure :: "pyexc + 'a \<Rightarrow> 'a io" where
  "pure r w = (r, w)"

definition io_bind :: "'a io \<Rightarrow> ('a \<Rightarrow> 'b io) \<Rightarrow> 'b io" where
  "io_bind m f w = (case m w of (Inl err, w') \<Rightarrow> (Inl err, w') | (Inr a, w') \<Rightarrow> f a w')"

definition io_then :: "unit io \<Rightarrow> 'b io \<Rightarrow> 'b io" where
  "io_then m k = io_bind m (\<lambda>_. k)"

text \<open>\<^verbatim>\<open>try: m except Exception: pass\<close>.\<close>

definition swallow :: "unit io \<Rightarrow> unit io" where
  "swallow m w = (Inr (), snd (m w))"

definition page_call :: "browser \<Rightarrow> event \<Rightarrow> unit io" where
  "page_call B ev w =
     ((case fails B (trace w) ev of
         None \<Rightarrow> Inr ()
       | Some msg \<Rightarrow> Inl (Exc PlaywrightError msg)),
      w\<lparr>trace := trace w @ [ev]\<rparr>)"

definition sleep :: "nat \<Rightarrow> unit io" where
  "sleep ms w = (Inr (), w\<lparr>trace := trace w @ [Sleep ms]\<rparr>)"

text \<open>\<^verbatim>\<open>input(...)\<close>: the next line of the operator, \<^verbatim>\<open>EOFError\<close> when there is none.\<close>

definition input_line :: "string io" where
  "input_line w =
     (case stdin w of
        [] \<Rightarrow> (Inl (Exc EOFError ''EOF when reading a line''), w)
      | l # ls \<Rightarrow> (Inr l, w\<lparr>stdin := ls\<rparr>))"

section \<open>The data of a turn\<close>

record function_call =
  fc_name :: string
  fc_args :: "(string \<rightharpoonup> pyval) option"

record part =
  part_function_call :: "function_call option"
  part_text :: "string option"

type_synonym payload = "string \<rightharpoonup> pyval"

type_synonym outcome = "string \<times> payload"

record function_response =
  fr_name :: string
  fr_response :: payload
  fr_image :: bytes

section \<open>The executor of \<^verbatim>\<open>agent.py\<close>\<close>

text \<open>
  \<^verbatim>\<open>ask_confirmation\<close> of \<^verbatim>\<open>agent.py\<close>: the explanation is read with \<^verbatim>\<open>.get\<close>
  (which a value that is no dictionary does not have), then the operator is asked
  until the answer is one of \<^verbatim>\<open>y\<close>, \<^verbatim>\<open>yes\<close> (allowed) or empty, \<^verbatim>\<open>n\<close>, \<^verbatim>\<open>no\<close>
  (denied).
\<close>

fun ask_loop :: "string list \<Rightarrow> (pyexc + bool) \<times> string list" where
  "ask_loop [] = (Inl (Exc EOFError ''EOF when reading a line''), [])"
| "ask_loop (l # ls) =
     (let ans = lower (strip l)
      in if ans = ''y'' \<or> ans = ''yes'' then (Inr True, ls)
         else if ans = [] \<or> ans = ''n'' \<or> ans = ''no'' then (Inr False, ls)
         else ask_loop ls)"

fun has_get :: "pyval \<Rightarrow> pyexc + unit" where
  "has_get (PDict d) = Inr ()"
| "has_get v =
     Inl (Exc AttributeError
       (quoted (type_name v) @ '' object has no attribute '' @ quoted ''get''))"

definition agent_ask_confirmation :: "pyval \<Rightarrow> bool io" where
  "agent_ask_confirmation safety_decision =
     io_bind (pure (has_get safety_decision))
       (\<lambda>_ w. case ask_loop (stdin w) of (r, rest) \<Rightarrow> (r, w\<lparr>stdin := rest\<rparr>))"

text \<open>\<^verbatim>\<open>denorm_x(args[k])\<close> and \<^verbatim>\<open>denorm_y(args[k])\<close>.\<close>

definition arg_x :: "(string \<rightharpoonup> pyval) \<Rightarrow> string \<Rightarrow> pyexc + int" where
  "arg_x args k = (case subscript args k of Inl err \<Rightarrow> Inl err | Inr v \<Rightarrow> denorm_x v)"

definition arg_y :: "(string \<rightharpoonup> pyval) \<Rightarrow> string \<Rightarrow> pyexc + int" where
  "arg_y args k = (case subscript args k of Inl err \<Rightarrow> Inl err | Inr v \<Rightarrow> denorm_y v)"

text \<open>
  The branches of the \<^verbatim>\<open>if name == ...\<close> chain of \<^verbatim>\<open>exec_calls\<close> (lines 65 to 118):
  the result is the dictionary \<^verbatim>\<open>extra\<close> after the branch, which only the last
  branch changes.
\<close>

definition agent_type_text_at :: "browser \<Rightarrow> (string \<rightharpoonup> pyval) \<Rightarrow> unit io" where
  "agent_type_text_at B args =
     io_bind (pure (arg_x args ''x'')) (\<lambda>x.
     io_bind (pure (arg_y args ''y'')) (\<lambda>y.
     io_then (page_call B (MouseClick x y))
    (io_then (if truthy (get_default args ''clear_before_typing'' (PBool True))
              then io_then (page_call B (KeyboardPress (PStr ''Meta+A'')))
                           (page_call B (KeyboardPress (PStr ''Backspace'')))
              else ret ())
    (io_bind (pure (subscript args ''text'')) (\<lambda>t.
     io_then (page_call B (KeyboardType t))
             (if truthy (get_default args ''press_enter'' (PBool True))
              then page_call B (KeyboardPress (PStr ''Enter''))
              else ret ()))))))"

definition agent_scroll_document :: "browser \<Rightarrow> (string \<rightharpoonup> pyval) \<Rightarrow> unit io" where
  "agent_scroll_document B args =
     (let direction = get_default args ''direction'' (PStr ''down'')
      in if str_lower_is direction ''down'' then page_call B (KeyboardPress (PStr ''PageDown''))
         else if str_lower_is direction ''up'' then page_call B (KeyboardPress (PStr ''PageUp''))
         else if str_lower_is direction ''left''
           then page_call B (Evaluate ''window.scrollBy(-400, 0)'')
         else if str_lower_is direction ''right''
           then page_call B (Evaluate ''window.scrollBy(400, 0)'')
         else ret ())"

definition agent_scroll_at :: "browser \<Rightarrow> (string \<rightharpoonup> pyval) \<Rightarrow> unit io" where
  "agent_scroll_at B args =
     io_bind (pure (arg_x args ''x'')) (\<lambda>x.
     io_bind (pure (arg_y args ''y'')) (\<lambda>y.
     io_then (page_call B (MouseMove x y))
    (io_bind (pure (py_int (get_default args ''magnitude'' (PInt 800)))) (\<lambda>magnitude.
     let direction = get_default args ''direction'' (PStr ''down'');
         dy = (if str_lower_is direction ''down'' then magnitude else - magnitude)
     in page_call B (MouseWheel 0 dy)))))"

definition agent_drag_and_drop :: "browser \<Rightarrow> (string \<rightharpoonup> pyval) \<Rightarrow> unit io" where
  "agent_drag_and_drop B args =
     io_bind (pure (arg_x args ''x'')) (\<lambda>sx.
     io_bind (pure (arg_y args ''y'')) (\<lambda>sy.
     io_bind (pure (arg_x args ''destination_x'')) (\<lambda>dx.
     io_bind (pure (arg_y args ''destination_y'')) (\<lambda>dy.
     io_then (page_call B (MouseMove sx sy))
    (io_then (page_call B MouseDown)
    (io_then (page_call B (MouseMoveSteps dx dy 10))
             (page_call B MouseUp)))))))"

definition agent_dispatch ::
  "browser \<Rightarrow> string \<Rightarrow> (string \<rightharpoonup> pyval) \<Rightarrow> payload \<Rightarrow> payload io" where
  "agent_dispatch B name args extra =
     (if name = ''open_web_browser'' then ret extra
      else if name = ''wait_5_seconds'' then io_then (sleep 5000) (ret extra)
      else if name = ''go_back'' then io_then (page_call B GoBack) (ret extra)
      else if name = ''go_forward'' then io_then (page_call B GoForward) (ret extra)
      else if name = ''search''
        then io_then (page_call B (Goto (PStr ''https://www.google.com''))) (ret extra)
      else if name = ''navigate''
        then io_bind (pure (subscript args ''url'')) (\<lambda>url.
             io_then (page_call B (Goto url)) (ret extra))
      else if name = ''click_at''
        then io_bind (pure (arg_x args ''x'')) (\<lambda>x.
             io_bind (pure (arg_y args ''y'')) (\<lambda>y.
             io_then (page_call B (MouseClick x y)) (ret extra)))
      else if name = ''hover_at''
        then io_bind (pure (arg_x args ''x'')) (\<lambda>x.
             io_bind (pure (arg_y args ''y'')) (\<lambda>y.
             io_then (page_call B (MouseMove x y)) (ret extra)))
      else if name = ''type_text_at'' then io_then (agent_type_text_at B args) (ret extra)
      else if name = ''key_combination''
        then io_bind (pure (subscript args ''keys'')) (\<lambda>keys.
             io_then (page_call B (KeyboardPress keys)) (ret extra))
      else if name = ''scroll_document'' then io_then (agent_scroll_document B args) (ret extra)
      else if name = ''scroll_at'' then io_then (agent_scroll_at B args) (ret extra)
      else if name = ''drag_and_drop'' then io_then (agent_drag_and_drop B args) (ret extra)
      else ret (extra(''warning'' \<mapsto> PStr ''unimplemented_action'')))"

text \<open>
  The body of the outer \<^verbatim>\<open>try\<close> (lines 64 to 126): the branch, then the wait for
  the load state with its own \<^verbatim>\<open>try\<close>, then \<^verbatim>\<open>time.sleep(0.6)\<close>.
\<close>

definition agent_try_body ::
  "browser \<Rightarrow> string \<Rightarrow> (string \<rightharpoonup> pyval) \<Rightarrow> payload \<Rightarrow> payload io" where
  "agent_try_body B name args extra =
     io_bind (agent_dispatch B name args extra) (\<lambda>extra'.
     io_then (swallow (page_call B (WaitForLoadState None 5000)))
    (io_then (sleep 600) (ret extra')))"

text \<open>
  One action past the safety gate: \<^verbatim>\<open>results.append((name, extra))\<close>, or in the
  handler \<^verbatim>\<open>results.append((name, {"error": str(e), **extra}))\<close>. Nothing raises
  after the last branch has changed \<^verbatim>\<open>extra\<close>, so the handler sees the dictionary
  as it was before the branch.
\<close>

definition agent_perform ::
  "browser \<Rightarrow> string \<Rightarrow> (string \<rightharpoonup> pyval) \<Rightarrow> payload \<Rightarrow> world \<Rightarrow> outcome \<times> world" where
  "agent_perform B name args extra w =
     (case agent_try_body B name args extra w of
        (Inr extra', w') \<Rightarrow> ((name, extra'), w')
      | (Inl err, w') \<Rightarrow> ((name, [''error'' \<mapsto> PStr (str_exc err)] ++ extra), w'))"

text \<open>
  The loop of \<^verbatim>\<open>exec_calls\<close> over the function calls, with the results so far,
  as \<^verbatim>\<open>agent.py\<close> (lines 50 to 131) and \<^verbatim>\<open>job_form.py\<close> (lines 47 to 96) have it;
  the two differ in the confirmation \<open>ask\<close> and in the execution \<open>perform\<close> of one
  action. The prompt of the operator is outside the \<^verbatim>\<open>try\<close>: what it raises
  leaves \<^verbatim>\<open>exec_calls\<close>.
\<close>

fun exec_loop ::
  "(pyval \<Rightarrow> bool io)
     \<Rightarrow> (string \<Rightarrow> (string \<rightharpoonup> pyval) \<Rightarrow> payload \<Rightarrow> world \<Rightarrow> outcome \<times> world)
     \<Rightarrow> function_call list \<Rightarrow> outcome list \<Rightarrow> outcome list io" where
  "exec_loop ask perform [] results w = (Inr results, w)"
| "exec_loop ask perform (fc # fcs) results w =
     (let name = fc_name fc;
          args = (case fc_args fc of None \<Rightarrow> Map.empty | Some a \<Rightarrow> a)
      in case args ''safety_decision'' of
           Some sd \<Rightarrow>
             (case ask sd w of
                (Inl err, w') \<Rightarrow> (Inl err, w')
              | (Inr False, w') \<Rightarrow>
                  (Inr (results @ [(name, [''error'' \<mapsto> PStr ''user_denied''])]), w')
              | (Inr True, w') \<Rightarrow>
                  (case perform name args [''safety_acknowledgement'' \<mapsto> PBool True] w' of
                     (r, w'') \<Rightarrow> exec_loop ask perform fcs (results @ [r]) w''))
         | None \<Rightarrow>
             (case perform name args Map.empty w of
                (r, w') \<Rightarrow> exec_loop ask perform fcs (results @ [r]) w'))"

text \<open>\<^verbatim>\<open>[p.function_call for p in candidate.content.parts if getattr(p, "function_call", None)]\<close>\<close>

definition function_calls :: "part list \<Rightarrow> function_call list" where
  "function_calls parts = List.map_filter part_function_call parts"

definition agent_exec_calls :: "browser \<Rightarrow> part list \<Rightarrow> outcome list io" where
  "agent_exec_calls B parts =
     exec_loop agent_ask_confirmation (agent_perform B) (function_calls parts) []"

section \<open>The executor of \<^verbatim>\<open>job_form.py\<close>\<close>

text \<open>\<^verbatim>\<open>ask_confirmation\<close> of \<^verbatim>\<open>job_form.py\<close>: one answer, allowed when it starts with \<^verbatim>\<open>y\<close>.\<close>

definition job_form_ask_confirmation :: "pyval \<Rightarrow> bool io" where
  "job_form_ask_confirmation safety_decision =
     io_bind (pure (has_get safety_decision)) (\<lambda>_.
     io_bind input_line (\<lambda>l. ret (startswith (lower (strip l)) ''y'')))"

definition job_form_type_text_at :: "browser \<Rightarrow> (string \<rightharpoonup> pyval) \<Rightarrow> unit io" where
  "job_form_type_text_at B args =
     io_bind (pure (arg_x args ''x'')) (\<lambda>x.
     io_bind (pure (arg_y args ''y'')) (\<lambda>y.
     io_then (page_call B (MouseClick x y))
    (io_then (if truthy (get_default args ''clear_before_typing'' (PBool True))
              then io_then (page_call B (KeyboardPress (PStr ''Meta+A'')))
                           (page_call B (KeyboardPress (PStr ''Backspace'')))
              else ret ())
    (io_bind (pure (subscript args ''text'')) (\<lambda>t.
     io_then (page_call B (KeyboardType t))
             (if truthy (get_default args ''press_enter'' (PBool False))
              then page_call B (KeyboardPress (PStr ''Enter''))
              else ret ()))))))"

text \<open>\<^verbatim>\<open>args.get("direction", "down").lower()\<close>: only a string has \<^verbatim>\<open>lower\<close>.\<close>

fun lower_method :: "pyval \<Rightarrow> pyexc + string" where
  "lower_method (PStr s) = Inr (lower s)"
| "lower_method v =
     Inl (Exc AttributeError
       (quoted (type_name v) @ '' object has no attribute '' @ quoted ''lower''))"

definition job_form_scroll_document :: "browser \<Rightarrow> (string \<rightharpoonup> pyval) \<Rightarrow> unit io" where
  "job_form_scroll_document B args =
     io_bind (pure (lower_method (get_default args ''direction'' (PStr ''down'')))) (\<lambda>direction.
       if direction = ''down'' then page_call B (KeyboardPress (PStr ''PageDown''))
       else if direction = ''up'' then page_call B (KeyboardPress (PStr ''PageUp''))
       else ret ())"

definition job_form_dispatch ::
  "browser \<Rightarrow> string \<Rightarrow> (string \<rightharpoonup> pyval) \<Rightarrow> payload \<Rightarrow> payload io" where
  "job_form_dispatch B name args meta =
     (if name = ''open_web_browser'' then ret meta
      else if name = ''navigate''
        then io_bind (pure (subscript args ''url'')) (\<lambda>url.
             io_then (page_call B (Goto url)) (ret meta))
      else if name = ''click_at''
        then io_bind (pure (arg_x args ''x'')) (\<lambda>x.
             io_bind (pure (arg_y args ''y'')) (\<lambda>y.
             io_then (page_call B (MouseClick x y)) (ret meta)))
      else if name = ''type_text_at'' then io_then (job_form_type_text_at B args) (ret meta)
      else if name = ''scroll_document''
        then io_then (job_form_scroll_document B args) (ret meta)
      else if name = ''key_combination''
        then io_bind (pure (subscript args ''keys'')) (\<lambda>keys.
             io_then (page_call B (KeyboardPress keys)) (ret meta))
      else ret (meta(''warning'' \<mapsto> PStr ''unimplemented'')))"

definition job_form_try_body ::
  "browser \<Rightarrow> string \<Rightarrow> (string \<rightharpoonup> pyval) \<Rightarrow> payload \<Rightarrow> payload io" where
  "job_form_try_body B name args meta =
     io_bind (job_form_dispatch B name args meta) (\<lambda>meta'.
     io_then (swallow (page_call B (WaitForLoadState None 4000)))
    (io_then (sleep 500) (ret meta')))"

definition job_form_perform ::
  "browser \<Rightarrow> string \<Rightarrow> (string \<rightharpoonup> pyval) \<Rightarrow> payload \<Rightarrow> world \<Rightarrow> outcome \<times> world" where
  "job_form_perform B name args meta w =
     (case job_form_try_body B name args meta w of
        (Inr meta', w') \<Rightarrow> ((name, meta'), w')
      | (Inl err, w') \<Rightarrow> ((name, [''error'' \<mapsto> PStr (str_exc err)] ++ meta), w'))"

definition job_form_exec_calls :: "browser \<Rightarrow> part list \<Rightarrow> outcome list io" where
  "job_form_exec_calls B parts =
     exec_loop job_form_ask_confirmation (job_form_perform B) (function_calls parts) []"

section \<open>The executor of \<^verbatim>\<open>app.py\<close>\<close>

text \<open>
  \<^verbatim>\<open>get_safety_confirmation\<close>: the explanation is read with a subscript, then one
  answer; \<open>True\<close> stands for \<^verbatim>\<open>"CONTINUE"\<close> and \<open>False\<close> for \<^verbatim>\<open>"TERMINATE"\<close>.
\<close>

fun explanation_of :: "pyval \<Rightarrow> pyexc + pyval" where
  "explanation_of (PDict d) =
     (case map_of d ''explanation'' of
        None \<Rightarrow> Inl (Exc KeyError (quoted ''explanation''))
      | Some v \<Rightarrow> Inr v)"
| "explanation_of (PStr s) =
     Inl (Exc TypeError (''string indices must be integers, not '' @ quoted ''str''))"
| "explanation_of v =
     Inl (Exc TypeError (quoted (type_name v) @ '' object is not subscriptable''))"

definition get_safety_confirmation :: "pyval \<Rightarrow> bool io" where
  "get_safety_confirmation safety_decision =
     io_bind (pure (explanation_of safety_decision)) (\<lambda>_.
     io_bind input_line (\<lambda>l. ret (startswith (lower (strip l)) ''y'')))"

definition app_arg_x :: "(string \<rightharpoonup> pyval) \<Rightarrow> int \<Rightarrow> pyexc + int" where
  "app_arg_x args screen_width =
     (case subscript args ''x'' of Inl err \<Rightarrow> Inl err | Inr v \<Rightarrow> denormalize_x v screen_width)"

definition app_arg_y :: "(string \<rightharpoonup> pyval) \<Rightarrow> int \<Rightarrow> pyexc + int" where
  "app_arg_y args screen_height =
     (case subscript args ''y'' of Inl err \<Rightarrow> Inl err | Inr v \<Rightarrow> denormalize_y v screen_height)"

definition app_dispatch ::
  "browser \<Rightarrow> int \<Rightarrow> int \<Rightarrow> string \<Rightarrow> (string \<rightharpoonup> pyval) \<Rightarrow> unit io" where
  "app_dispatch B screen_width screen_height fname args =
     (if fname = ''open_web_browser'' then ret ()
      else if fname = ''click_at''
        then io_bind (pure (app_arg_x args screen_width)) (\<lambda>x.
             io_bind (pure (app_arg_y args screen_height)) (\<lambda>y.
             page_call B (MouseClick x y)))
      else if fname = ''type_text_at''
        then io_bind (pure (app_arg_x args screen_width)) (\<lambda>x.
             io_bind (pure (app_arg_y args screen_height)) (\<lambda>y.
             io_then (page_call B (MouseClick x y))
            (io_then (page_call B (KeyboardPress (PStr ''Meta+A'')))
            (io_then (page_call B (KeyboardPress (PStr ''Backspace'')))
            (io_bind (pure (subscript args ''text'')) (\<lambda>t.
             io_then (page_call B (KeyboardType t))
                     (if truthy (get_default args ''press_enter'' (PBool True))
                      then page_call B (KeyboardPress (PStr ''Enter''))
                      else ret ())))))))
      else if fname = ''scroll_document''
        then (let direction = get_default args ''direction'' (PStr ''down'');
                  amount = (if direction = PStr ''down'' then 1000 else - 1000)
              in page_call B (MouseWheel 0 amount))
      else if fname = ''key_combination''
        then io_bind (pure (subscript args ''keys'')) (\<lambda>keys.
             page_call B (KeyboardPress keys))
      else ret ())"

text \<open>
  One action past the safety gate (lines 70 to 98): the handler stores the text of the
  exception in \<^verbatim>\<open>extra_fields\<close>; the wait for the load state comes after the
  \<^verbatim>\<open>try\<close> statement and has no handler of its own.
\<close>

definition app_perform ::
  "browser \<Rightarrow> int \<Rightarrow> int \<Rightarrow> string \<Rightarrow> (string \<rightharpoonup> pyval) \<Rightarrow> payload \<Rightarrow> outcome io" where
  "app_perform B screen_width screen_height fname args extra_fields w =
     (case app_dispatch B screen_width screen_height fname args w of
        (r, w') \<Rightarrow>
          (let extra_fields' =
                 (case r of
                    Inr _ \<Rightarrow> extra_fields
                  | Inl err \<Rightarrow> extra_fields(''error'' \<mapsto> PStr (str_exc err)))
           in io_then (page_call B (WaitForLoadState (Some ''load'') 8000))
             (io_then (sleep 1000) (ret (fname, extra_fields'))) w'))"

text \<open>
  The loop over the parts. \<^verbatim>\<open>"safety_decision" in args\<close> raises when the call has no
  argument dictionary; a denial leaves the loop with \<^verbatim>\<open>break\<close>.
\<close>

fun app_exec_loop ::
  "browser \<Rightarrow> int \<Rightarrow> int \<Rightarrow> part list \<Rightarrow> outcome list \<Rightarrow> outcome list io" where
  "app_exec_loop B sw sh [] results w = (Inr results, w)"
| "app_exec_loop B sw sh (p # ps) results w =
     (case part_function_call p of
        None \<Rightarrow> app_exec_loop B sw sh ps results w
      | Some fc \<Rightarrow>
          (case fc_args fc of
             None \<Rightarrow>
               (Inl (Exc TypeError
                  (''argument of type '' @ quoted ''NoneType'' @ '' is not iterable'')), w)
           | Some args \<Rightarrow>
               (case args ''safety_decision'' of
                  Some sd \<Rightarrow>
                    (case get_safety_confirmation sd w of
                       (Inl err, w') \<Rightarrow> (Inl err, w')
                     | (Inr False, w') \<Rightarrow> (Inr results, w')
                     | (Inr True, w') \<Rightarrow>
                         (case app_perform B sw sh (fc_name fc) args
                                 [''safety_acknowledgement'' \<mapsto> PBool True] w' of
                            (Inl err, w'') \<Rightarrow> (Inl err, w'')
                          | (Inr r, w'') \<Rightarrow> app_exec_loop B sw sh ps (results @ [r]) w''))
                | None \<Rightarrow>
                    (case app_perform B sw sh (fc_name fc) args Map.empty w of
                       (Inl err, w') \<Rightarrow> (Inl err, w')
                     | (Inr r, w') \<Rightarrow> app_exec_loop B sw sh ps (results @ [r]) w'))))"

definition execute_function_calls ::
  "browser \<Rightarrow> part list \<Rightarrow> int \<Rightarrow> int \<Rightarrow> outcome list io" where
  "execute_function_calls B parts screen_width screen_height =
     app_exec_loop B screen_width screen_height parts []"

section \<open>The observation builder\<close>

definition take_screenshot :: "browser \<Rightarrow> bytes io" where
  "take_screenshot B w =
     ((case fails B (trace w) Screenshot of
         None \<Rightarrow> Inr (screenshot_of B (trace w))
       | Some msg \<Rightarrow> Inl (Exc PlaywrightError msg)),
      w\<lparr>trace := trace w @ [Screenshot]\<rparr>)"

definition read_url :: "browser \<Rightarrow> string io" where
  "read_url B w = (Inr (url_of B (trace w)), w\<lparr>trace := trace w @ [ReadUrl]\<rparr>)"

text \<open>
  \<^verbatim>\<open>build_function_responses\<close> of \<^verbatim>\<open>agent.py\<close> and \<^verbatim>\<open>job_form.py\<close>: in
  \<^verbatim>\<open>{"url": url, **payload}\<close> a key of the payload wins over \<^verbatim>\<open>url\<close>.
\<close>

definition build_function_responses ::
  "browser \<Rightarrow> outcome list \<Rightarrow> function_response list io" where
  "build_function_responses B results =
     io_bind (take_screenshot B) (\<lambda>screenshot.
     io_bind (read_url B) (\<lambda>url.
     ret (map (\<lambda>(name, payload).
            \<lparr>fr_name = name, fr_response = [''url'' \<mapsto> PStr url] ++ payload,
             fr_image = screenshot\<rparr>) results)))"

text \<open>\<^verbatim>\<open>get_function_responses\<close> of \<^verbatim>\<open>app.py\<close>.\<close>

definition get_function_responses ::
  "browser \<Rightarrow> outcome list \<Rightarrow> function_response list io" where
  "get_function_responses B results =
     io_bind (take_screenshot B) (\<lambda>screenshot.
     io_bind (read_url B) (\<lambda>url.
     ret (map (\<lambda>(name, result).
            \<lparr>fr_name = name, fr_response = [''url'' \<mapsto> PStr url] ++ result,
             fr_image = screenshot\<rparr>) results)))"

section \<open>The turn loop\<close>

datatype content =
    UserGoal string bytes
  | ModelContent "part list"
  | UserResponses "function_response list"

text \<open>
  How a run of \<^verbatim>\<open>main\<close> ends: the \<^verbatim>\<open>break\<close> with the final text, the \<^verbatim>\<open>else\<close>
  of the \<^verbatim>\<open>for\<close> loop, or an exception that leaves \<^verbatim>\<open>main\<close>.
\<close>

datatype ending = Done string | ReachedStepLimit | Raised pyexc

text \<open>
  The model is a parameter: from the conversation so far, the parts of the first
  candidate of its response, or the text of the exception that the request or the
  reading of that candidate raises.
\<close>

definition generate_content :: "(content list \<Rightarrow> string + part list) \<Rightarrow> content list \<Rightarrow> part list io" where
  "generate_content M contents w =
     ((case M contents of Inl msg \<Rightarrow> Inl (Exc APIError msg) | Inr parts \<Rightarrow> Inr parts),
      w\<lparr>trace := trace w @ [GenerateContent]\<rparr>)"

text \<open>\<^verbatim>\<open>" ".join([p.text for p in cand.content.parts if getattr(p, "text", None)])\<close>\<close>

fun join_space :: "string list \<Rightarrow> string" where
  "join_space [] = []"
| "join_space [s] = s"
| "join_space (s # t # ts) = s @ '' '' @ join_space (t # ts)"

definition final_text :: "part list \<Rightarrow> string" where
  "final_text parts =
     join_space (List.map_filter
       (\<lambda>p. case part_text p of None \<Rightarrow> None | Some t \<Rightarrow> if t = [] then None else Some t) parts)"

text \<open>
  The \<^verbatim>\<open>for turn in range(...)\<close> loop of \<^verbatim>\<open>main\<close> in \<^verbatim>\<open>agent.py\<close> (lines 211 to
  236) and in \<^verbatim>\<open>job_form.py\<close> (lines 173 to 191), which differ in the executor they
  call; \<open>n\<close> is the number of turns left.
\<close>

fun turn_loop ::
  "(browser \<Rightarrow> part list \<Rightarrow> outcome list io) \<Rightarrow> browser \<Rightarrow> (content list \<Rightarrow> string + part list)
     \<Rightarrow> nat \<Rightarrow> content list \<Rightarrow> world \<Rightarrow> (ending \<times> content list) \<times> world" where
  "turn_loop exec B M 0 contents w = ((ReachedStepLimit, contents), w)"
| "turn_loop exec B M (Suc n) contents w =
     (case generate_content M contents w of
        (Inl err, w1) \<Rightarrow> ((Raised err, contents), w1)
      | (Inr parts, w1) \<Rightarrow>
          (let contents1 = contents @ [ModelContent parts]
           in if function_calls parts = [] then ((Done (final_text parts), contents1), w1)
              else (case exec B parts w1 of
                      (Inl err, w2) \<Rightarrow> ((Raised err, contents1), w2)
                    | (Inr results, w2) \<Rightarrow>
                        (case build_function_responses B results w2 of
                           (Inl err, w3) \<Rightarrow> ((Raised err, contents1), w3)
                         | (Inr frs, w3) \<Rightarrow>
                             turn_loop exec B M n (contents1 @ [UserResponses frs]) w3))))"

definition TURN_LIMIT :: nat where
  "TURN_LIMIT = 10"

text \<open>
  \<^verbatim>\<open>main\<close> from its \<^verbatim>\<open>try\<close> on: the first page and screenshot, the loop, and in
  the \<^verbatim>\<open>finally\<close> the release of the browser, whose exception replaces the result.
  The start of \<^verbatim>\<open>main\<close> (the goal from the command line, the key file, the launch
  of the browser) comes before and is not part of it.
\<close>

definition run_session ::
  "(browser \<Rightarrow> part list \<Rightarrow> outcome list io) \<Rightarrow> nat \<Rightarrow> browser
     \<Rightarrow> (content list \<Rightarrow> string + part list) \<Rightarrow> string \<Rightarrow> string \<Rightarrow> world
     \<Rightarrow> (ending \<times> content list) \<times> world" where
  "run_session exec limit B M start_url goal w =
     (let (r, w1) =
            (case io_then (page_call B (Goto (PStr start_url))) (take_screenshot B) w of
               (Inl err, w') \<Rightarrow> ((Raised err, []), w')
             | (Inr initial_png, w') \<Rightarrow>
                 turn_loop exec B M limit [UserGoal goal initial_png] w')
      in case io_then (page_call B BrowserClose) (page_call B PlaywrightStop) w1 of
           (Inl err, w2) \<Rightarrow> ((Raised err, snd r), w2)
         | (Inr _, w2) \<Rightarrow> (r, w2))"

definition agent_main ::
  "browser \<Rightarrow> (content list \<Rightarrow> string + part list) \<Rightarrow> string \<Rightarrow> world
     \<Rightarrow> (ending \<times> content list) \<times> world" where
  "agent_main B M goal = run_session agent_exec_calls 10 B M ''https://www.google.com'' goal"

definition job_form_main ::
  "browser \<Rightarrow> (content list \<Rightarrow> string + part list) \<Rightarrow> string \<Rightarrow> string \<Rightarrow> world
     \<Rightarrow> (ending \<times> content list) \<times> world" where
  "job_form_main B M file_url goal = run_session job_form_exec_calls TURN_LIMIT B M file_url goal"

section \<open>Concrete browsers, requests and operators\<close>

text \<open>A browser whose calls raise as \<open>f\<close> says, whatever happened before.\<close>

definition browser_with :: "(event \<Rightarrow> string option) \<Rightarrow> browser" where
  "browser_with f =
     \<lparr>fails = (\<lambda>t. f), screenshot_of = (\<lambda>t. ''PNG''),
      url_of = (\<lambda>t. ''https://www.google.com/'')\<rparr>"

definition quiet_browser :: browser where
  "quiet_browser = browser_with (\<lambda>ev. None)"

text \<open>A page that never reaches its load state: every wait for it times out.\<close>

definition stalled_browser :: browser where
  "stalled_browser =
     browser_with (\<lambda>ev. case ev of
                           WaitForLoadState s ms \<Rightarrow> Some ''Timeout exceeded.''
                         | _ \<Rightarrow> None)"

text \<open>A page on which clicking raises.\<close>

definition closed_browser :: browser where
  "closed_browser =
     browser_with (\<lambda>ev. case ev of
                           MouseClick x y \<Rightarrow> Some ''Target page has been closed''
                         | _ \<Rightarrow> None)"

text \<open>A page on which clicking raises and that never reaches its load state.\<close>

definition hung_browser :: browser where
  "hung_browser =
     browser_with (\<lambda>ev. case ev of
                           MouseClick x y \<Rightarrow> Some ''Target page has been closed''
                         | WaitForLoadState s ms \<Rightarrow> Some ''Timeout exceeded.''
                         | _ \<Rightarrow> None)"

definition call_part :: "string \<Rightarrow> (string \<times> pyval) list \<Rightarrow> part" where
  "call_part name kvs =
     \<lparr>part_function_call = Some \<lparr>fc_name = name, fc_args = Some (map_of kvs)\<rparr>,
      part_text = None\<rparr>"

definition text_part :: "string \<Rightarrow> part" where
  "text_part t = \<lparr>part_function_call = None, part_text = Some t\<rparr>"

definition click_part :: part where
  "click_part = call_part ''click_at'' [(''x'', PInt 500), (''y'', PInt 500)]"

definition risky_decision :: pyval where
  "risky_decision =
     PDict [(''explanation'', PStr ''This submits the form''),
            (''decision'', PStr ''require_confirmation'')]"

definition risky_click_args :: "string \<rightharpoonup> pyval" where
  "risky_click_args =
     map_of [(''x'', PInt 500), (''y'', PInt 500), (''safety_decision'', risky_decision)]"

definition risky_click_call :: function_call where
  "risky_click_call = \<lparr>fc_name = ''click_at'', fc_args = Some risky_click_args\<rparr>"

definition risky_click_part :: part where
  "risky_click_part = \<lparr>part_function_call = Some risky_click_call, part_text = None\<rparr>"

definition type_args :: "string \<rightharpoonup> pyval" where
  "type_args = map_of [(''x'', PInt 500), (''y'', PInt 500), (''text'', PStr ''hello'')]"

definition type_part :: part where
  "type_part =
     \<lparr>part_function_call = Some \<lparr>fc_name = ''type_text_at'', fc_args = Some type_args\<rparr>,
      part_text = None\<rparr>"

text \<open>Two outcomes of a turn, the second with an error.\<close>

definition two_outcomes :: "outcome list" where
  "two_outcomes =
     [(''click_at'', Map.empty),
      (''type_text_at'', [''error'' \<mapsto> PStr ''Target page has been closed''])]"

text \<open>A world with an empty trace in which the operator will type the given lines.\<close>

definition operator :: "string list \<Rightarrow> world" where
  "operator answers = \<lparr>trace = [], stdin = answers\<rparr>"

text \<open>
  A model that asks for one risky click when it sees only the goal, and answers with
  text alone from then on.
\<close>

definition two_step_model :: "content list \<Rightarrow> string + part list" where
  "two_step_model contents =
     (if length contents = 1 then Inr [risky_click_part] else Inr [text_part ''All done''])"

text \<open>Readers of a result: the exception, the names of the outcomes, one of their fields.\<close>

definition raised_of :: "(pyexc + 'a) \<times> world \<Rightarrow> pyexc option" where
  "raised_of r = (case fst r of Inl err \<Rightarrow> Some err | Inr _ \<Rightarrow> None)"

definition names_of :: "(pyexc + outcome list) \<times> world \<Rightarrow> string list option" where
  "names_of r = (case fst r of Inl _ \<Rightarrow> None | Inr rs \<Rightarrow> Some (map fst rs))"

definition fields_of :: "string \<Rightarrow> (pyexc + outcome list) \<times> world \<Rightarrow> pyval option list option" where
  "fields_of k r = (case fst r of Inl _ \<Rightarrow> None | Inr rs \<Rightarrow> Some (map (\<lambda>r. snd r k) rs))"

definition trace_of :: "'a \<times> world \<Rightarrow> event list" where
  "trace_of r = trace (snd r)"

section \<open>Outcomes of a turn\<close>

text \<open>
  C1. One outcome for every request, in order, also when an action fails. In
  \<^verbatim>\<open>app.py\<close> the wait for the load state after an action has no handler: on a page
  that does not reach its load state, \<^verbatim>\<open>execute_function_calls\<close> raises out of
  the turn after the first action and returns no outcome at all, where
  \<^verbatim>\<open>exec_calls\<close> of \<^verbatim>\<open>agent.py\<close> returns the outcome of the click.
\<close>

theorem app_load_timeout_loses_outcomes:
  "raised_of (execute_function_calls stalled_browser [click_part] SCREEN_WIDTH SCREEN_HEIGHT
                (operator []))
     = Some (Exc PlaywrightError ''Timeout exceeded.'')
   \<and> names_of (execute_function_calls stalled_browser [click_part] SCREEN_WIDTH SCREEN_HEIGHT
                (operator [])) = None
   \<and> names_of (agent_exec_calls stalled_browser [click_part] (operator []))
     = Some [''click_at'']"
  by code_simp

text \<open>
  C2. A denied safety confirmation gives one outcome with the error
  \<^verbatim>\<open>user_denied\<close> for the denied action, and nothing is executed after it. In
  \<^verbatim>\<open>app.py\<close> the denial leaves the loop with \<^verbatim>\<open>break\<close> before anything is
  appended: no outcome is recorded for the denied action, where \<^verbatim>\<open>agent.py\<close> and
  \<^verbatim>\<open>job_form.py\<close> record it. In all three the later click is not executed.
\<close>

theorem app_denial_records_no_outcome:
  "names_of (execute_function_calls quiet_browser [risky_click_part, click_part]
               SCREEN_WIDTH SCREEN_HEIGHT (operator [''n''])) = Some []
   \<and> trace_of (execute_function_calls quiet_browser [risky_click_part, click_part]
               SCREEN_WIDTH SCREEN_HEIGHT (operator [''n''])) = []
   \<and> names_of (agent_exec_calls quiet_browser [risky_click_part, click_part] (operator [''n'']))
     = Some [''click_at'']
   \<and> fields_of ''error''
        (agent_exec_calls quiet_browser [risky_click_part, click_part] (operator [''n'']))
     = Some [Some (PStr ''user_denied'')]
   \<and> trace_of (agent_exec_calls quiet_browser [risky_click_part, click_part] (operator [''n'']))
     = []
   \<and> fields_of ''error''
        (job_form_exec_calls quiet_browser [risky_click_part, click_part] (operator [''n'']))
     = Some [Some (PStr ''user_denied'')]"
  by code_simp

text \<open>
  C3. A session ends as done, as stopped by the turn budget, or as stopped by a
  denial, and a denial ends it after its turn. In \<^verbatim>\<open>main\<close> of \<^verbatim>\<open>agent.py\<close> and of
  \<^verbatim>\<open>job_form.py\<close> a denial ends only the executor: the loop builds the responses,
  asks the model again, and here ends as done on the text of the second turn.
\<close>

theorem main_continues_after_denial:
  "fst (fst (agent_main quiet_browser two_step_model ''goal'' (operator [''n''])))
     = Done ''All done''
   \<and> trace_of (agent_main quiet_browser two_step_model ''goal'' (operator [''n'']))
     = [Goto (PStr ''https://www.google.com''), Screenshot, GenerateContent,
        Screenshot, ReadUrl, GenerateContent, BrowserClose, PlaywrightStop]
   \<and> fst (fst (job_form_main quiet_browser two_step_model ''file:///form.html'' ''goal''
                  (operator [''n''])))
     = Done ''All done''
   \<and> trace_of (job_form_main quiet_browser two_step_model ''file:///form.html'' ''goal''
                  (operator [''n'']))
     = [Goto (PStr ''file:///form.html''), Screenshot, GenerateContent,
        Screenshot, ReadUrl, GenerateContent, BrowserClose, PlaywrightStop]"
  by code_simp

text \<open>
  C4. After every action, failed or not, the executor waits for the load state,
  swallowing a timeout, and then sleeps. In \<^verbatim>\<open>agent.py\<close> and \<^verbatim>\<open>job_form.py\<close> the
  wait and the sleep are inside the \<^verbatim>\<open>try\<close> of the action: when the click raises,
  neither happens and the next click follows at once.
\<close>

theorem failed_action_skips_settling:
  "trace_of (agent_exec_calls closed_browser [click_part, click_part] (operator []))
     = [MouseClick 720 450, MouseClick 720 450]
   \<and> trace_of (job_form_exec_calls closed_browser [click_part, click_part] (operator []))
     = [MouseClick 720 450, MouseClick 720 450]
   \<and> trace_of (agent_exec_calls quiet_browser [click_part, click_part] (operator []))
     = [MouseClick 720 450, WaitForLoadState None 5000, Sleep 600,
        MouseClick 720 450, WaitForLoadState None 5000, Sleep 600]"
  by code_simp

text \<open>
  C5. An exception of an action is caught, its text becomes the error of the
  outcome, the later actions run, and nothing reaches the turn loop. In \<^verbatim>\<open>app.py\<close>
  the handler stores the text, but the wait for the load state that follows is not
  guarded: on a page where the click raises and the load state is not reached, the
  timeout leaves \<^verbatim>\<open>execute_function_calls\<close>, no outcome is returned and the second
  action is not executed. \<^verbatim>\<open>exec_calls\<close> of \<^verbatim>\<open>agent.py\<close> returns both outcomes
  with the text of the exception.
\<close>

theorem app_failed_action_escapes:
  "raised_of (execute_function_calls hung_browser [click_part, type_part]
                SCREEN_WIDTH SCREEN_HEIGHT (operator []))
     = Some (Exc PlaywrightError ''Timeout exceeded.'')
   \<and> trace_of (execute_function_calls hung_browser [click_part, type_part]
                SCREEN_WIDTH SCREEN_HEIGHT (operator []))
     = [MouseClick 720 450, WaitForLoadState (Some ''load'') 8000]
   \<and> fields_of ''error'' (agent_exec_calls hung_browser [click_part, type_part] (operator []))
     = Some [Some (PStr ''Target page has been closed''),
             Some (PStr ''Target page has been closed'')]"
  by code_simp

text \<open>
  C7. An action whose name is not recognised touches neither mouse nor keyboard and
  its outcome carries the warning \<^verbatim>\<open>unimplemented_action\<close>. \<^verbatim>\<open>agent.py\<close> does so;
  \<^verbatim>\<open>job_form.py\<close> writes the warning \<^verbatim>\<open>unimplemented\<close>.
\<close>

theorem job_form_unknown_action_marker:
  "fields_of ''warning'' (job_form_exec_calls quiet_browser [call_part ''hover_at'' []] (operator []))
     = Some [Some (PStr ''unimplemented'')]
   \<and> fields_of ''error'' (job_form_exec_calls quiet_browser [call_part ''hover_at'' []] (operator []))
     = Some [None]
   \<and> trace_of (job_form_exec_calls quiet_browser [call_part ''hover_at'' []] (operator []))
     = [WaitForLoadState None 4000, Sleep 500]
   \<and> fields_of ''warning'' (agent_exec_calls quiet_browser [call_part ''frobnicate'' []] (operator []))
     = Some [Some (PStr ''unimplemented_action'')]
   \<and> trace_of (agent_exec_calls quiet_browser [call_part ''frobnicate'' []] (operator []))
     = [WaitForLoadState None 5000, Sleep 600]"
  by code_simp

section \<open>Properties of one action\<close>

lemmas io_defs = io_bind_def io_then_def ret_def pure_def swallow_def sleep_def page_call_def

lemma agent_dispatch_type_text_at:
  "agent_dispatch B ''type_text_at'' args extra = io_then (agent_type_text_at B args) (ret extra)"
  by (simp add: agent_dispatch_def)

lemma job_form_dispatch_type_text_at:
  "job_form_dispatch B ''type_text_at'' args meta
     = io_then (job_form_type_text_at B args) (ret meta)"
  by (simp add: job_form_dispatch_def)

lemma agent_perform_clears:
  assumes "args ''clear_before_typing'' = None"
  shows "\<exists>evs. trace (snd (agent_perform B ''type_text_at'' args extra w)) = trace w @ evs
     \<and> (\<forall>t. KeyboardType t \<in> set evs \<longrightarrow>
            (\<exists>x y. prefix [MouseClick x y, KeyboardPress (PStr ''Meta+A''),
                    KeyboardPress (PStr ''Backspace''), KeyboardType t] evs))"
  using assms
  unfolding agent_perform_def agent_try_body_def agent_dispatch_type_text_at
    agent_type_text_at_def
  by (auto simp: io_defs get_default_def subscript_def
      split: option.splits sum.splits prod.splits)

lemma job_form_perform_clears:
  assumes "args ''clear_before_typing'' = None"
  shows "\<exists>evs. trace (snd (job_form_perform B ''type_text_at'' args extra w)) = trace w @ evs
     \<and> (\<forall>t. KeyboardType t \<in> set evs \<longrightarrow>
            (\<exists>x y. prefix [MouseClick x y, KeyboardPress (PStr ''Meta+A''),
                    KeyboardPress (PStr ''Backspace''), KeyboardType t] evs))"
  using assms
  unfolding job_form_perform_def job_form_try_body_def job_form_dispatch_type_text_at
    job_form_type_text_at_def
  by (auto simp: io_defs get_default_def subscript_def
      split: option.splits sum.splits prod.splits)

lemma agent_perform_quiet:
  assumes "args ''clear_before_typing'' = None"
    and "arg_x args ''x'' = Inr x" and "arg_y args ''y'' = Inr y"
    and "args ''text'' = Some t" and "\<forall>tr ev. fails B tr ev = None"
  shows "trace (snd (agent_perform B ''type_text_at'' args extra w)) = trace w @
     [MouseClick x y, KeyboardPress (PStr ''Meta+A''), KeyboardPress (PStr ''Backspace''),
      KeyboardType t]
     @ (if truthy (get_default args ''press_enter'' (PBool True))
        then [KeyboardPress (PStr ''Enter'')] else [])
     @ [WaitForLoadState None 5000, Sleep 600]"
  using assms
  unfolding agent_perform_def agent_try_body_def agent_dispatch_type_text_at
    agent_type_text_at_def
  by (auto simp: io_defs get_default_def subscript_def
      split: option.splits sum.splits prod.splits)

lemma job_form_perform_quiet:
  assumes "args ''clear_before_typing'' = None"
    and "arg_x args ''x'' = Inr x" and "arg_y args ''y'' = Inr y"
    and "args ''text'' = Some t" and "\<forall>tr ev. fails B tr ev = None"
  shows "trace (snd (job_form_perform B ''type_text_at'' args extra w)) = trace w @
     [MouseClick x y, KeyboardPress (PStr ''Meta+A''), KeyboardPress (PStr ''Backspace''),
      KeyboardType t]
     @ (if truthy (get_default args ''press_enter'' (PBool False))
        then [KeyboardPress (PStr ''Enter'')] else [])
     @ [WaitForLoadState None 4000, Sleep 500]"
  using assms
  unfolding job_form_perform_def job_form_try_body_def job_form_dispatch_type_text_at
    job_form_type_text_at_def
  by (auto simp: io_defs get_default_def subscript_def
      split: option.splits sum.splits prod.splits)

lemma type_args_x: "arg_x type_args ''x'' = Inr 720"
  by code_simp

lemma type_args_y: "arg_y type_args ''y'' = Inr 450"
  by code_simp

lemma quiet_browser_never_fails: "\<forall>tr ev. fails quiet_browser tr ev = None"
  by (simp add: quiet_browser_def browser_with_def)

text \<open>
  C9. A \<^verbatim>\<open>type_text_at\<close> request without \<^verbatim>\<open>clear_before_typing\<close> clears the
  field before typing: in \<^verbatim>\<open>agent.py\<close> and in \<^verbatim>\<open>job_form.py\<close>, whatever the page
  does, text is typed only right after the click, the select-all \<^verbatim>\<open>Meta+A\<close> and
  the delete \<^verbatim>\<open>Backspace\<close>; and on a page where no call raises, with coordinates and
  text given, the calls are exactly the click, the select-all, the delete, the typing,
  the optional \<^verbatim>\<open>Enter\<close>, and the settling.
\<close>

theorem omitted_clear_flag_clears:
  assumes "args ''clear_before_typing'' = None"
  shows "(\<exists>evs. trace (snd (agent_perform B ''type_text_at'' args extra w)) = trace w @ evs
           \<and> (\<forall>t. KeyboardType t \<in> set evs \<longrightarrow>
                 (\<exists>x y. prefix [MouseClick x y, KeyboardPress (PStr ''Meta+A''),
                                 KeyboardPress (PStr ''Backspace''), KeyboardType t] evs)))
       \<and> (\<exists>evs. trace (snd (job_form_perform B ''type_text_at'' args extra w)) = trace w @ evs
           \<and> (\<forall>t. KeyboardType t \<in> set evs \<longrightarrow>
                 (\<exists>x y. prefix [MouseClick x y, KeyboardPress (PStr ''Meta+A''),
                                 KeyboardPress (PStr ''Backspace''), KeyboardType t] evs)))
       \<and> ((\<forall>tr ev. fails B tr ev = None) \<and> arg_x args ''x'' = Inr x \<and> arg_y args ''y'' = Inr y
            \<and> args ''text'' = Some t \<longrightarrow>
          trace (snd (agent_perform B ''type_text_at'' args extra w)) = trace w @
            [MouseClick x y, KeyboardPress (PStr ''Meta+A''), KeyboardPress (PStr ''Backspace''),
             KeyboardType t]
            @ (if truthy (get_default args ''press_enter'' (PBool True))
               then [KeyboardPress (PStr ''Enter'')] else [])
            @ [WaitForLoadState None 5000, Sleep 600]
        \<and> trace (snd (job_form_perform B ''type_text_at'' args extra w)) = trace w @
            [MouseClick x y, KeyboardPress (PStr ''Meta+A''), KeyboardPress (PStr ''Backspace''),
             KeyboardType t]
            @ (if truthy (get_default args ''press_enter'' (PBool False))
               then [KeyboardPress (PStr ''Enter'')] else [])
            @ [WaitForLoadState None 4000, Sleep 500])"
  using assms agent_perform_clears[of args B extra w] job_form_perform_clears[of args B extra w]
    agent_perform_quiet[of args x y t B extra w] job_form_perform_quiet[of args x y t B extra w]
  by blast

theorem omitted_clear_flag_clears_witness:
  "type_args ''clear_before_typing'' = None
   \<and> trace (snd (agent_perform quiet_browser ''type_text_at'' type_args Map.empty (operator [])))
     = [MouseClick 720 450, KeyboardPress (PStr ''Meta+A''), KeyboardPress (PStr ''Backspace''),
        KeyboardType (PStr ''hello''), KeyboardPress (PStr ''Enter''),
        WaitForLoadState None 5000, Sleep 600]
   \<and> trace (snd (job_form_perform quiet_browser ''type_text_at'' type_args Map.empty
                   (operator [])))
     = [MouseClick 720 450, KeyboardPress (PStr ''Meta+A''), KeyboardPress (PStr ''Backspace''),
        KeyboardType (PStr ''hello''), WaitForLoadState None 4000, Sleep 500]"
proof -
  have h: "type_args ''clear_before_typing'' = None"
    by (simp add: type_args_def)
  have t: "type_args ''text'' = Some (PStr ''hello'')" "type_args ''press_enter'' = None"
    by (simp_all add: type_args_def)
  from omitted_clear_flag_clears[of type_args quiet_browser Map.empty "operator []" 720 450
      "PStr ''hello''"]
    quiet_browser_never_fails type_args_x type_args_y t h
  show ?thesis by (simp add: operator_def get_default_def)
qed

lemma agent_perform_raised:
  assumes "agent_dispatch B name args extra w = (Inl err, w')"
  shows "agent_perform B name args extra w
           = ((name, [''error'' \<mapsto> PStr (str_exc err)] ++ extra), w')"
  using assms by (simp add: agent_perform_def agent_try_body_def io_bind_def)

lemma job_form_perform_raised:
  assumes "job_form_dispatch B name args meta w = (Inl err, w')"
  shows "job_form_perform B name args meta w
           = ((name, [''error'' \<mapsto> PStr (str_exc err)] ++ meta), w')"
  using assms by (simp add: job_form_perform_def job_form_try_body_def io_bind_def)

lemma exec_loop_allowed:
  assumes "args = (case fc_args fc of None \<Rightarrow> Map.empty | Some a \<Rightarrow> a)"
    and "args ''safety_decision'' = Some sd"
    and "ask sd w = (Inr True, w1)"
    and "perform (fc_name fc) args [''safety_acknowledgement'' \<mapsto> PBool True] w1 = (r, w2)"
  shows "exec_loop ask perform (fc # fcs) results w = exec_loop ask perform fcs (results @ [r]) w2"
  using assms by (simp add: Let_def)

lemma risky_click_x: "arg_x risky_click_args ''x'' = Inr 720"
  by code_simp

lemma risky_click_y: "arg_y risky_click_args ''y'' = Inr 450"
  by code_simp

lemma risky_click_gated: "risky_click_args ''safety_decision'' = Some risky_decision"
  by (simp add: risky_click_args_def)

lemma agent_allows:
  "agent_ask_confirmation risky_decision (operator [''y'']) = (Inr True, operator [])"
  by (simp add: agent_ask_confirmation_def risky_decision_def operator_def io_defs lower_def
      strip_def is_space_def lower_char_def)

lemma job_form_allows:
  "job_form_ask_confirmation risky_decision (operator [''y'']) = (Inr True, operator [])"
  by (simp add: job_form_ask_confirmation_def risky_decision_def operator_def io_defs lower_def
      strip_def is_space_def lower_char_def input_line_def)

lemma agent_click_raises:
  "agent_dispatch closed_browser ''click_at'' risky_click_args
     [''safety_acknowledgement'' \<mapsto> PBool True] (operator [])
   = (Inl (Exc PlaywrightError ''Target page has been closed''),
      \<lparr>trace = [MouseClick 720 450], stdin = []\<rparr>)"
  by (simp add: agent_dispatch_def risky_click_x risky_click_y io_defs closed_browser_def
      browser_with_def operator_def)

lemma job_form_click_raises:
  "job_form_dispatch closed_browser ''click_at'' risky_click_args
     [''safety_acknowledgement'' \<mapsto> PBool True] (operator [])
   = (Inl (Exc PlaywrightError ''Target page has been closed''),
      \<lparr>trace = [MouseClick 720 450], stdin = []\<rparr>)"
  by (simp add: job_form_dispatch_def risky_click_x risky_click_y io_defs closed_browser_def
      browser_with_def operator_def)

text \<open>
  C10. When the operator allows an action that carries a safety decision and the
  action then raises, its outcome has both the error with the text of the exception
  and the acknowledgement, in \<^verbatim>\<open>agent.py\<close> and in \<^verbatim>\<open>job_form.py\<close>; the loop goes
  on with the remaining calls.
\<close>

theorem acknowledgement_kept_on_error:
  assumes "args = (case fc_args fc of None \<Rightarrow> Map.empty | Some a \<Rightarrow> a)"
    and "args ''safety_decision'' = Some sd"
  shows "(agent_ask_confirmation sd w = (Inr True, w1)
          \<and> agent_dispatch B (fc_name fc) args [''safety_acknowledgement'' \<mapsto> PBool True] w1
              = (Inl err, w2)
          \<longrightarrow> (\<exists>p. exec_loop agent_ask_confirmation (agent_perform B) (fc # fcs) results w
                     = exec_loop agent_ask_confirmation (agent_perform B) fcs
                         (results @ [(fc_name fc, p)]) w2
                   \<and> p ''error'' = Some (PStr (str_exc err))
                   \<and> p ''safety_acknowledgement'' = Some (PBool True)))
       \<and> (job_form_ask_confirmation sd w = (Inr True, w1)
          \<and> job_form_dispatch B (fc_name fc) args [''safety_acknowledgement'' \<mapsto> PBool True] w1
              = (Inl err, w2)
          \<longrightarrow> (\<exists>p. exec_loop job_form_ask_confirmation (job_form_perform B) (fc # fcs) results w
                     = exec_loop job_form_ask_confirmation (job_form_perform B) fcs
                         (results @ [(fc_name fc, p)]) w2
                   \<and> p ''error'' = Some (PStr (str_exc err))
                   \<and> p ''safety_acknowledgement'' = Some (PBool True)))"
proof (intro conjI impI)
  assume a: "agent_ask_confirmation sd w = (Inr True, w1)
     \<and> agent_dispatch B (fc_name fc) args [''safety_acknowledgement'' \<mapsto> PBool True] w1
         = (Inl err, w2)"
  let ?p = "[''error'' \<mapsto> PStr (str_exc err)] ++ [''safety_acknowledgement'' \<mapsto> PBool True]"
  have "agent_perform B (fc_name fc) args [''safety_acknowledgement'' \<mapsto> PBool True] w1
          = ((fc_name fc, ?p), w2)"
    using a by (simp add: agent_perform_raised)
  with assms a
  have step: "exec_loop agent_ask_confirmation (agent_perform B) (fc # fcs) results w
      = exec_loop agent_ask_confirmation (agent_perform B) fcs (results @ [(fc_name fc, ?p)]) w2"
    by (intro exec_loop_allowed[where sd = sd and ?w1.0 = w1 and args = args]) simp_all
  have fields: "?p ''error'' = Some (PStr (str_exc err))"
    "?p ''safety_acknowledgement'' = Some (PBool True)"
    by (simp_all add: map_add_def)
  show "\<exists>p. exec_loop agent_ask_confirmation (agent_perform B) (fc # fcs) results w
                     = exec_loop agent_ask_confirmation (agent_perform B) fcs
                         (results @ [(fc_name fc, p)]) w2
                   \<and> p ''error'' = Some (PStr (str_exc err))
                   \<and> p ''safety_acknowledgement'' = Some (PBool True)"
    by (intro exI[of _ ?p] conjI step fields)
next
  assume a: "job_form_ask_confirmation sd w = (Inr True, w1)
     \<and> job_form_dispatch B (fc_name fc) args [''safety_acknowledgement'' \<mapsto> PBool True] w1
         = (Inl err, w2)"
  let ?p = "[''error'' \<mapsto> PStr (str_exc err)] ++ [''safety_acknowledgement'' \<mapsto> PBool True]"
  have "job_form_perform B (fc_name fc) args [''safety_acknowledgement'' \<mapsto> PBool True] w1
          = ((fc_name fc, ?p), w2)"
    using a by (simp add: job_form_perform_raised)
  with assms a
  have step: "exec_loop job_form_ask_confirmation (job_form_perform B) (fc # fcs) results w
      = exec_loop job_form_ask_confirmation (job_form_perform B) fcs
          (results @ [(fc_name fc, ?p)]) w2"
    by (intro exec_loop_allowed[where sd = sd and ?w1.0 = w1 and args = args]) simp_all
  have fields: "?p ''error'' = Some (PStr (str_exc err))"
    "?p ''safety_acknowledgement'' = Some (PBool True)"
    by (simp_all add: map_add_def)
  show "\<exists>p. exec_loop job_form_ask_confirmation (job_form_perform B) (fc # fcs) results w
                     = exec_loop job_form_ask_confirmation (job_form_perform B) fcs
                         (results @ [(fc_name fc, p)]) w2
                   \<and> p ''error'' = Some (PStr (str_exc err))
                   \<and> p ''safety_acknowledgement'' = Some (PBool True)"
    by (intro exI[of _ ?p] conjI step fields)
qed

theorem acknowledgement_kept_on_error_witness:
  "risky_click_args = (case fc_args risky_click_call of None \<Rightarrow> Map.empty | Some a \<Rightarrow> a)
   \<and> risky_click_args ''safety_decision'' = Some risky_decision
   \<and> agent_ask_confirmation risky_decision (operator [''y'']) = (Inr True, operator [])
   \<and> agent_dispatch closed_browser (fc_name risky_click_call) risky_click_args
        [''safety_acknowledgement'' \<mapsto> PBool True] (operator [])
      = (Inl (Exc PlaywrightError ''Target page has been closed''),
         \<lparr>trace = [MouseClick 720 450], stdin = []\<rparr>)
   \<and> (\<exists>p. exec_loop agent_ask_confirmation (agent_perform closed_browser) [risky_click_call] []
             (operator [''y''])
           = (Inr [(''click_at'', p)], \<lparr>trace = [MouseClick 720 450], stdin = []\<rparr>)
         \<and> p ''error'' = Some (PStr ''Target page has been closed'')
         \<and> p ''safety_acknowledgement'' = Some (PBool True))
   \<and> (\<exists>p. exec_loop job_form_ask_confirmation (job_form_perform closed_browser)
             [risky_click_call] [] (operator [''y''])
           = (Inr [(''click_at'', p)], \<lparr>trace = [MouseClick 720 450], stdin = []\<rparr>)
         \<and> p ''error'' = Some (PStr ''Target page has been closed'')
         \<and> p ''safety_acknowledgement'' = Some (PBool True))"
proof -
  have h1: "risky_click_args
      = (case fc_args risky_click_call of None \<Rightarrow> Map.empty | Some a \<Rightarrow> a)"
    by (simp add: risky_click_call_def)
  have n: "fc_name risky_click_call = ''click_at''"
    by (simp add: risky_click_call_def)
  note inst = acknowledgement_kept_on_error[OF h1 risky_click_gated,
      of "operator [''y'']" "operator []" closed_browser
         "Exc PlaywrightError ''Target page has been closed''"
         "\<lparr>trace = [MouseClick 720 450], stdin = []\<rparr>" "[]" "[]"]
  from inst agent_allows job_form_allows agent_click_raises job_form_click_raises
  show ?thesis
    by (simp add: n h1[symmetric] risky_click_gated)
qed

section \<open>Properties of the executor loops\<close>

lemma io_bind_Inr:
  "io_bind m f w = (Inr b, w') \<Longrightarrow> \<exists>a w1. m w = (Inr a, w1) \<and> f a w1 = (Inr b, w')"
  by (auto simp: io_bind_def split: prod.splits sum.splits)

lemma io_then_ret_Inr: "io_then m (ret a) w = (Inr b, w') \<Longrightarrow> b = a"
  by (auto simp: io_then_def io_bind_def ret_def split: prod.splits sum.splits)

lemma io_bind_ret_Inr:
  "io_bind m (\<lambda>x. io_then (k x) (ret a)) w = (Inr b, w') \<Longrightarrow> b = a"
  by (auto simp: io_then_def io_bind_def ret_def split: prod.splits sum.splits)

lemma io_bind2_ret_Inr:
  "io_bind m (\<lambda>x. io_bind (m2 x) (\<lambda>y. io_then (k x y) (ret a))) w = (Inr b, w') \<Longrightarrow> b = a"
  by (auto simp: io_then_def io_bind_def ret_def split: prod.splits sum.splits)

lemma agent_dispatch_extra:
  assumes "agent_dispatch B name args extra w = (Inr e', w')"
  shows "e' = extra \<or> e' = extra(''warning'' \<mapsto> PStr ''unimplemented_action'')"
  using assms unfolding agent_dispatch_def
  by (auto split: if_splits dest: io_then_ret_Inr io_bind_ret_Inr io_bind2_ret_Inr
      simp: ret_def)

lemma job_form_dispatch_meta:
  assumes "job_form_dispatch B name args meta w = (Inr e', w')"
  shows "e' = meta \<or> e' = meta(''warning'' \<mapsto> PStr ''unimplemented'')"
  using assms unfolding job_form_dispatch_def
  by (auto split: if_splits dest: io_then_ret_Inr io_bind_ret_Inr io_bind2_ret_Inr
      simp: ret_def)

lemma settle_keeps:
  "io_then (swallow m) (io_then (sleep ms) (ret a)) w = (r, w') \<Longrightarrow> r = Inr a"
  by (auto simp: io_then_def io_bind_def ret_def swallow_def sleep_def
      split: prod.splits sum.splits)

lemma agent_perform_payload:
  assumes "agent_perform B name args extra w = ((n, p), w')"
  shows "n = name
     \<and> (p = extra \<or> p = extra(''warning'' \<mapsto> PStr ''unimplemented_action'')
        \<or> (\<exists>err. p = [''error'' \<mapsto> PStr (str_exc err)] ++ extra))"
proof (cases "agent_try_body B name args extra w")
  case (Pair r w1)
  show ?thesis
  proof (cases r)
    case (Inl err)
    with Pair assms show ?thesis by (auto simp: agent_perform_def)
  next
    case (Inr e')
    with Pair obtain e1 w2 where d: "agent_dispatch B name args extra w = (Inr e1, w2)"
      and s: "io_then (swallow (page_call B (WaitForLoadState None 5000)))
                (io_then (sleep 600) (ret e1)) w2 = (Inr e', w1)"
      unfolding agent_try_body_def by (blast dest: io_bind_Inr)
    from settle_keeps[OF s] have "e' = e1" by simp
    with agent_dispatch_extra[OF d] Pair Inr assms show ?thesis
      by (auto simp: agent_perform_def)
  qed
qed

lemma job_form_perform_payload:
  assumes "job_form_perform B name args meta w = ((n, p), w')"
  shows "n = name
     \<and> (p = meta \<or> p = meta(''warning'' \<mapsto> PStr ''unimplemented'')
        \<or> (\<exists>err. p = [''error'' \<mapsto> PStr (str_exc err)] ++ meta))"
proof (cases "job_form_try_body B name args meta w")
  case (Pair r w1)
  show ?thesis
  proof (cases r)
    case (Inl err)
    with Pair assms show ?thesis by (auto simp: job_form_perform_def)
  next
    case (Inr e')
    with Pair obtain e1 w2 where d: "job_form_dispatch B name args meta w = (Inr e1, w2)"
      and s: "io_then (swallow (page_call B (WaitForLoadState None 4000)))
                (io_then (sleep 500) (ret e1)) w2 = (Inr e', w1)"
      unfolding job_form_try_body_def by (blast dest: io_bind_Inr)
    from settle_keeps[OF s] have "e' = e1" by simp
    with job_form_dispatch_meta[OF d] Pair Inr assms show ?thesis
      by (auto simp: job_form_perform_def)
  qed
qed

text \<open>
  What holds of every outcome of one action and of the outcome of a denial holds of
  every outcome that the loop returns.
\<close>

lemma exec_loop_outcomes:
  assumes perf: "\<And>name args extra w. extra = Map.empty
                    \<or> extra = [''safety_acknowledgement'' \<mapsto> PBool True]
                  \<Longrightarrow> P (fst (perform name args extra w))"
    and den: "\<And>name. P (name, [''error'' \<mapsto> PStr ''user_denied''])"
  shows "exec_loop ask perform fcs acc w = (Inr rs, w') \<Longrightarrow> \<forall>r\<in>set acc. P r
           \<Longrightarrow> \<forall>r\<in>set rs. P r"
proof (induction fcs arbitrary: acc w)
  case Nil
  then show ?case by simp
next
  case (Cons fc fcs)
  define args where "args = (case fc_args fc of None \<Rightarrow> Map.empty | Some a \<Rightarrow> a)"
  show ?case
  proof (cases "args ''safety_decision''")
    case None
    obtain r w1 where pf: "perform (fc_name fc) args Map.empty w = (r, w1)"
      by (metis surj_pair)
    with Cons.prems(1) None have "exec_loop ask perform fcs (acc @ [r]) w1 = (Inr rs, w')"
      by (simp add: Let_def args_def)
    moreover have "P r" using perf[of Map.empty "fc_name fc" args w] pf by simp
    then have "\<forall>r\<in>set (acc @ [r]). P r" using Cons.prems(2) by auto
    ultimately show ?thesis by (rule Cons.IH)
  next
    case (Some sd)
    obtain r0 w0 where ask: "ask sd w = (r0, w0)" by (metis surj_pair)
    show ?thesis
    proof (cases r0)
      case (Inl err)
      with Cons.prems(1) Some ask show ?thesis by (simp add: Let_def args_def)
    next
      case (Inr ok)
      show ?thesis
      proof (cases ok)
        case False
        with Cons.prems Some ask Inr den show ?thesis
          by (auto simp: Let_def args_def)
      next
        case True
        obtain r w1
          where pf: "perform (fc_name fc) args [''safety_acknowledgement'' \<mapsto> PBool True] w0
                       = (r, w1)"
          by (metis surj_pair)
        with Cons.prems(1) Some ask Inr True
        have "exec_loop ask perform fcs (acc @ [r]) w1 = (Inr rs, w')"
          by (simp add: Let_def args_def)
        moreover have "P r"
          using perf[of "[''safety_acknowledgement'' \<mapsto> PBool True]" "fc_name fc" args w0] pf
          by simp
        then have "\<forall>r\<in>set (acc @ [r]). P r" using Cons.prems(2) by auto
        ultimately show ?thesis by (rule Cons.IH)
      qed
    qed
  qed
qed

lemma agent_outcomes_have_no_url:
  assumes "agent_exec_calls B parts w = (Inr rs, w')"
  shows "\<forall>r\<in>set rs. snd r ''url'' = None"
proof (rule exec_loop_outcomes[where P = "\<lambda>r. snd r ''url'' = None" and acc = "[]"])
  show "exec_loop agent_ask_confirmation (agent_perform B) (function_calls parts) [] w
          = (Inr rs, w')"
    using assms by (simp add: agent_exec_calls_def)
next
  fix name args extra w
  assume e: "extra = Map.empty \<or> extra = [''safety_acknowledgement'' \<mapsto> PBool True]"
  obtain n p w1 where pf: "agent_perform B name args extra w = ((n, p), w1)"
    by (metis surj_pair)
  from agent_perform_payload[OF pf] e show "snd (fst (agent_perform B name args extra w)) ''url'' = None"
    by (auto simp: pf map_add_def)
qed simp_all

lemma job_form_outcomes_have_no_url:
  assumes "job_form_exec_calls B parts w = (Inr rs, w')"
  shows "\<forall>r\<in>set rs. snd r ''url'' = None"
proof (rule exec_loop_outcomes[where P = "\<lambda>r. snd r ''url'' = None" and acc = "[]"])
  show "exec_loop job_form_ask_confirmation (job_form_perform B) (function_calls parts) [] w
          = (Inr rs, w')"
    using assms by (simp add: job_form_exec_calls_def)
next
  fix name args extra w
  assume e: "extra = Map.empty \<or> extra = [''safety_acknowledgement'' \<mapsto> PBool True]"
  obtain n p w1 where pf: "job_form_perform B name args extra w = ((n, p), w1)"
    by (metis surj_pair)
  from job_form_perform_payload[OF pf] e
  show "snd (fst (job_form_perform B name args extra w)) ''url'' = None"
    by (auto simp: pf map_add_def)
qed simp_all

lemma app_perform_payload:
  assumes "app_perform B sw sh fname args extra w = (Inr (n, p), w')"
  shows "n = fname \<and> (p = extra \<or> (\<exists>err. p = extra(''error'' \<mapsto> PStr (str_exc err))))"
  using assms unfolding app_perform_def
  by (auto simp: io_then_def io_bind_def ret_def sleep_def Let_def
      split: prod.splits sum.splits)

lemma app_exec_loop_no_url:
  "app_exec_loop B sw sh ps acc w = (Inr rs, w') \<Longrightarrow> \<forall>r\<in>set acc. snd r ''url'' = None
     \<Longrightarrow> \<forall>r\<in>set rs. snd r ''url'' = None"
proof (induction ps arbitrary: acc w)
  case Nil
  then show ?case by simp
next
  case (Cons p ps)
  show ?case
  proof (cases "part_function_call p")
    case None
    with Cons.prems(1) have "app_exec_loop B sw sh ps acc w = (Inr rs, w')" by simp
    then show ?thesis using Cons.prems(2) by (rule Cons.IH)
  next
    case (Some fc)
    show ?thesis
    proof (cases "fc_args fc")
      case None
      with Cons.prems(1) Some show ?thesis by simp
    next
      case args: (Some args)
      define extra :: payload where
        "extra = (case args ''safety_decision'' of None \<Rightarrow> Map.empty
                  | Some sd \<Rightarrow> [''safety_acknowledgement'' \<mapsto> PBool True])"
      have extra: "extra ''url'' = None" by (simp add: extra_def split: option.splits)
      from Cons.prems(1) Some args
      have "rs = acc \<or> (\<exists>w0 w1 r. app_perform B sw sh (fc_name fc) args extra w0 = (Inr r, w1)
                          \<and> app_exec_loop B sw sh ps (acc @ [r]) w1 = (Inr rs, w'))"
        by (auto simp: extra_def split: option.splits prod.splits sum.splits bool.splits)
      then show ?thesis
      proof
        assume "rs = acc"
        then show ?thesis using Cons.prems(2) by simp
      next
        assume "\<exists>w0 w1 r. app_perform B sw sh (fc_name fc) args extra w0 = (Inr r, w1)
                          \<and> app_exec_loop B sw sh ps (acc @ [r]) w1 = (Inr rs, w')"
        then obtain w0 w1 r
          where pf: "app_perform B sw sh (fc_name fc) args extra w0 = (Inr r, w1)"
            and rest: "app_exec_loop B sw sh ps (acc @ [r]) w1 = (Inr rs, w')"
          by blast
        obtain n q where r: "r = (n, q)" by (cases r)
        from app_perform_payload[OF pf[unfolded r]] extra have "q ''url'' = None" by auto
        then have "\<forall>r\<in>set (acc @ [r]). snd r ''url'' = None"
          using Cons.prems(2) r by auto
        with rest show ?thesis by (rule Cons.IH)
      qed
    qed
  qed
qed

lemma app_outcomes_have_no_url:
  assumes "execute_function_calls B parts sw sh w = (Inr rs, w')"
  shows "\<forall>r\<in>set rs. snd r ''url'' = None"
  using app_exec_loop_no_url[of B sw sh parts "[]" w rs w'] assms
  by (simp add: execute_function_calls_def)

text \<open>
  The loop of \<^verbatim>\<open>agent.py\<close> and \<^verbatim>\<open>job_form.py\<close> returns the outcomes of the calls
  in their order, one for each call up to a denied one, whose outcome is the last.
\<close>

lemma exec_loop_names:
  assumes perf: "\<And>name args extra w. fst (fst (perform name args extra w)) = name"
  shows "exec_loop ask perform fcs acc w = (Inr rs, w')
     \<Longrightarrow> \<exists>k\<le>length fcs. map fst rs = map fst acc @ map fc_name (take k fcs)
            \<and> (k < length fcs \<longrightarrow> rs \<noteq> [] \<and> snd (last rs) = [''error'' \<mapsto> PStr ''user_denied''])"
proof (induction fcs arbitrary: acc w)
  case Nil
  then show ?case by simp
next
  case (Cons fc fcs)
  define args where "args = (case fc_args fc of None \<Rightarrow> Map.empty | Some a \<Rightarrow> a)"
  have step: "\<exists>k\<le>length (fc # fcs). map fst rs = map fst acc @ map fc_name (take k (fc # fcs))
            \<and> (k < length (fc # fcs) \<longrightarrow> rs \<noteq> [] \<and> snd (last rs) = [''error'' \<mapsto> PStr ''user_denied''])"
    if run: "exec_loop ask perform fcs (acc @ [r]) w1 = (Inr rs, w')" and r: "fst r = fc_name fc"
    for r w1
  proof -
    from Cons.IH[OF run] obtain k where k: "k \<le> length fcs"
      "map fst rs = map fst (acc @ [r]) @ map fc_name (take k fcs)"
      "k < length fcs \<longrightarrow> rs \<noteq> [] \<and> snd (last rs) = [''error'' \<mapsto> PStr ''user_denied'']"
      by blast
    show ?thesis
      using k r by (intro exI[of _ "Suc k"]) simp
  qed
  show ?case
  proof (cases "args ''safety_decision''")
    case None
    obtain r w1 where pf: "perform (fc_name fc) args Map.empty w = (r, w1)"
      by (metis surj_pair)
    with Cons.prems None have "exec_loop ask perform fcs (acc @ [r]) w1 = (Inr rs, w')"
      by (simp add: Let_def args_def)
    moreover have "fst r = fc_name fc" using perf[of "fc_name fc" args Map.empty w] pf by simp
    ultimately show ?thesis by (rule step)
  next
    case (Some sd)
    obtain r0 w0 where ask: "ask sd w = (r0, w0)" by (metis surj_pair)
    show ?thesis
    proof (cases r0)
      case (Inl err)
      with Cons.prems Some ask show ?thesis by (simp add: Let_def args_def)
    next
      case (Inr ok)
      show ?thesis
      proof (cases ok)
        case False
        with Cons.prems Some ask Inr
        have "rs = acc @ [(fc_name fc, [''error'' \<mapsto> PStr ''user_denied''])]"
          by (auto simp: Let_def args_def)
        then show ?thesis by (intro exI[of _ "Suc 0"]) simp
      next
        case True
        obtain r w1
          where pf: "perform (fc_name fc) args [''safety_acknowledgement'' \<mapsto> PBool True] w0
                       = (r, w1)"
          by (metis surj_pair)
        with Cons.prems Some ask Inr True
        have "exec_loop ask perform fcs (acc @ [r]) w1 = (Inr rs, w')"
          by (simp add: Let_def args_def)
        moreover have "fst r = fc_name fc"
          using perf[of "fc_name fc" args "[''safety_acknowledgement'' \<mapsto> PBool True]" w0] pf
          by simp
        ultimately show ?thesis by (rule step)
      qed
    qed
  qed
qed

lemma agent_perform_name: "fst (fst (agent_perform B name args extra w)) = name"
  by (simp add: agent_perform_def split: prod.splits sum.splits)

lemma job_form_perform_name: "fst (fst (job_form_perform B name args meta w)) = name"
  by (simp add: job_form_perform_def split: prod.splits sum.splits)

text \<open>Only the prompt of the operator makes the loop raise.\<close>

lemma exec_loop_raises_from_ask:
  "exec_loop ask perform fcs acc w = (Inl err, w') \<Longrightarrow> \<exists>sd w0. ask sd w0 = (Inl err, w')"
proof (induction fcs arbitrary: acc w)
  case Nil
  then show ?case by simp
next
  case (Cons fc fcs)
  define args where "args = (case fc_args fc of None \<Rightarrow> Map.empty | Some a \<Rightarrow> a)"
  show ?case
  proof (cases "args ''safety_decision''")
    case None
    obtain r w1 where pf: "perform (fc_name fc) args Map.empty w = (r, w1)"
      by (metis surj_pair)
    with Cons.prems None have "exec_loop ask perform fcs (acc @ [r]) w1 = (Inl err, w')"
      by (simp add: Let_def args_def)
    then show ?thesis by (rule Cons.IH)
  next
    case (Some sd)
    obtain r0 w0 where ask: "ask sd w = (r0, w0)" by (metis surj_pair)
    show ?thesis
    proof (cases r0)
      case (Inl e)
      with Cons.prems Some ask show ?thesis by (auto simp: Let_def args_def)
    next
      case (Inr ok)
      show ?thesis
      proof (cases ok)
        case False
        with Cons.prems Some ask Inr show ?thesis by (auto simp: Let_def args_def)
      next
        case True
        obtain r w1
          where pf: "perform (fc_name fc) args [''safety_acknowledgement'' \<mapsto> PBool True] w0
                       = (r, w1)"
          by (metis surj_pair)
        with Cons.prems Some ask Inr True
        have "exec_loop ask perform fcs (acc @ [r]) w1 = (Inl err, w')"
          by (simp add: Let_def args_def)
        then show ?thesis by (rule Cons.IH)
      qed
    qed
  qed
qed

text \<open>
  In \<^verbatim>\<open>agent.py\<close> and \<^verbatim>\<open>job_form.py\<close>, a turn whose calls carry no safety decision
  returns one outcome for each call, in order, whatever the page does.
\<close>

lemma exec_loop_ungated:
  assumes perf: "\<And>name args extra w. fst (fst (perform name args extra w)) = name"
  shows "\<forall>fc\<in>set fcs. (case fc_args fc of None \<Rightarrow> Map.empty | Some a \<Rightarrow> a) ''safety_decision'' = None
     \<Longrightarrow> \<exists>rs w'. exec_loop ask perform fcs acc w = (Inr rs, w')
            \<and> map fst rs = map fst acc @ map fc_name fcs"
proof (induction fcs arbitrary: acc w)
  case Nil
  then show ?case by simp
next
  case (Cons fc fcs)
  define args where "args = (case fc_args fc of None \<Rightarrow> Map.empty | Some a \<Rightarrow> a)"
  obtain r w1 where pf: "perform (fc_name fc) args Map.empty w = (r, w1)"
    by (metis surj_pair)
  have r: "fst r = fc_name fc" using perf[of "fc_name fc" args Map.empty w] pf by simp
  from Cons.prems have none: "args ''safety_decision'' = None" and
    rest: "\<forall>fc\<in>set fcs. (case fc_args fc of None \<Rightarrow> Map.empty | Some a \<Rightarrow> a) ''safety_decision'' = None"
    by (simp_all add: args_def)
  from Cons.IH[OF rest, of "acc @ [r]" w1] obtain rs w'
    where "exec_loop ask perform fcs (acc @ [r]) w1 = (Inr rs, w')"
      and "map fst rs = map fst (acc @ [r]) @ map fc_name fcs"
    by blast
  then show ?case using pf none r by (simp add: Let_def args_def[symmetric])
qed

lemma agent_ungated_turn:
  assumes "\<forall>fc\<in>set (function_calls parts).
             (case fc_args fc of None \<Rightarrow> Map.empty | Some a \<Rightarrow> a) ''safety_decision'' = None"
  shows "\<exists>rs w'. agent_exec_calls B parts w = (Inr rs, w')
           \<and> map fst rs = map fc_name (function_calls parts)"
  using exec_loop_ungated[of "agent_perform B" "function_calls parts" agent_ask_confirmation "[]" w,
      OF agent_perform_name assms]
  by (simp add: agent_exec_calls_def)

section \<open>Properties of the observation builder\<close>

lemma build_function_responses_ok:
  assumes "fails B (trace w) Screenshot = None"
  shows "build_function_responses B results w =
     (Inr (map (\<lambda>(name, payload).
            \<lparr>fr_name = name,
             fr_response = [''url'' \<mapsto> PStr (url_of B (trace w @ [Screenshot]))] ++ payload,
             fr_image = screenshot_of B (trace w)\<rparr>) results),
      w\<lparr>trace := trace w @ [Screenshot, ReadUrl]\<rparr>)"
  using assms
  by (simp add: build_function_responses_def take_screenshot_def read_url_def io_bind_def
      ret_def)

lemma build_function_responses_raises:
  assumes "fails B (trace w) Screenshot = Some msg"
  shows "build_function_responses B results w =
     (Inl (Exc PlaywrightError msg), w\<lparr>trace := trace w @ [Screenshot]\<rparr>)"
  using assms
  by (simp add: build_function_responses_def take_screenshot_def read_url_def io_bind_def
      ret_def)

lemma get_function_responses_eq:
  "get_function_responses B results w = build_function_responses B results w"
  by (simp add: get_function_responses_def build_function_responses_def)

text \<open>
  C8. One screenshot and one reading of the URL for a turn, shared by all outcomes:
  the builder of \<^verbatim>\<open>agent.py\<close> and \<^verbatim>\<open>job_form.py\<close>, and the one of \<^verbatim>\<open>app.py\<close>
  which is the same function, take the screenshot once and read the URL once; every
  response has the name of its outcome, that screenshot, that URL (an outcome has no
  \<^verbatim>\<open>url\<close> field of its own) and the fields of the outcome. When the screenshot
  raises, the exception leaves the builder.
\<close>

theorem one_screenshot_for_all_outcomes:
  "get_function_responses B results w = build_function_responses B results w
   \<and> (case fails B (trace w) Screenshot of
        Some msg \<Rightarrow>
          build_function_responses B results w
            = (Inl (Exc PlaywrightError msg), w\<lparr>trace := trace w @ [Screenshot]\<rparr>)
      | None \<Rightarrow>
          (\<exists>frs. build_function_responses B results w
                   = (Inr frs, w\<lparr>trace := trace w @ [Screenshot, ReadUrl]\<rparr>)
             \<and> length frs = length results
             \<and> (\<forall>i<length results.
                   fr_name (frs ! i) = fst (results ! i)
                 \<and> fr_image (frs ! i) = screenshot_of B (trace w)
                 \<and> (snd (results ! i) ''url'' = None \<longrightarrow>
                      fr_response (frs ! i) ''url''
                        = Some (PStr (url_of B (trace w @ [Screenshot]))))
                 \<and> (\<forall>k. k \<noteq> ''url'' \<longrightarrow> fr_response (frs ! i) k = snd (results ! i) k))))"
proof (cases "fails B (trace w) Screenshot")
  case None
  let ?frs = "map (\<lambda>(name, payload).
            \<lparr>fr_name = name,
             fr_response = [''url'' \<mapsto> PStr (url_of B (trace w @ [Screenshot]))] ++ payload,
             fr_image = screenshot_of B (trace w)\<rparr>) results"
  have "\<forall>i<length results.
                   fr_name (?frs ! i) = fst (results ! i)
                 \<and> fr_image (?frs ! i) = screenshot_of B (trace w)
                 \<and> (snd (results ! i) ''url'' = None \<longrightarrow>
                      fr_response (?frs ! i) ''url''
                        = Some (PStr (url_of B (trace w @ [Screenshot]))))
                 \<and> (\<forall>k. k \<noteq> ''url'' \<longrightarrow> fr_response (?frs ! i) k = snd (results ! i) k)"
    by (auto simp: map_add_def split: prod.splits option.splits)
  then show ?thesis
    using None build_function_responses_ok[OF None, of results]
    by (simp add: get_function_responses_eq del: One_nat_def)
next
  case (Some msg)
  then show ?thesis
    by (simp add: get_function_responses_eq build_function_responses_raises)
qed

theorem one_screenshot_for_all_outcomes_witness:
  "fails quiet_browser (trace (operator [])) Screenshot = None
   \<and> (\<exists>frs. build_function_responses quiet_browser two_outcomes (operator [])
              = (Inr frs, \<lparr>trace = [Screenshot, ReadUrl], stdin = []\<rparr>)
        \<and> length frs = 2
        \<and> fr_name (frs ! 0) = ''click_at'' \<and> fr_name (frs ! 1) = ''type_text_at''
        \<and> fr_image (frs ! 0) = ''PNG'' \<and> fr_image (frs ! 1) = ''PNG''
        \<and> fr_response (frs ! 0) ''url'' = Some (PStr ''https://www.google.com/'')
        \<and> fr_response (frs ! 1) ''url'' = Some (PStr ''https://www.google.com/'')
        \<and> fr_response (frs ! 1) ''error'' = Some (PStr ''Target page has been closed''))"
proof -
  have q: "fails quiet_browser (trace (operator [])) Screenshot = None"
    by (simp add: quiet_browser_never_fails)
  have len: "length two_outcomes = 2"
    by (simp add: two_outcomes_def)
  have fields: "fst (two_outcomes ! 0) = ''click_at''" "fst (two_outcomes ! 1) = ''type_text_at''"
    "snd (two_outcomes ! 0) ''url'' = None" "snd (two_outcomes ! 1) ''url'' = None"
    "snd (two_outcomes ! 1) ''error'' = Some (PStr ''Target page has been closed'')"
    by (simp_all add: two_outcomes_def)
  have env: "screenshot_of quiet_browser (trace (operator [])) = ''PNG''"
    "url_of quiet_browser (trace (operator []) @ [Screenshot]) = ''https://www.google.com/''"
    "(operator [])\<lparr>trace := trace (operator []) @ [Screenshot, ReadUrl]\<rparr>
       = \<lparr>trace = [Screenshot, ReadUrl], stdin = []\<rparr>"
    by (simp_all add: quiet_browser_def browser_with_def operator_def)
  from one_screenshot_for_all_outcomes[of quiet_browser two_outcomes "operator []"] q
  obtain frs where b: "build_function_responses quiet_browser two_outcomes (operator [])
              = (Inr frs, (operator [])\<lparr>trace := trace (operator []) @ [Screenshot, ReadUrl]\<rparr>)"
    and l: "length frs = length two_outcomes"
    and a: "\<forall>i<length two_outcomes.
                   fr_name (frs ! i) = fst (two_outcomes ! i)
                 \<and> fr_image (frs ! i) = screenshot_of quiet_browser (trace (operator []))
                 \<and> (snd (two_outcomes ! i) ''url'' = None \<longrightarrow>
                      fr_response (frs ! i) ''url''
                        = Some (PStr (url_of quiet_browser (trace (operator []) @ [Screenshot]))))
                 \<and> (\<forall>k. k \<noteq> ''url'' \<longrightarrow> fr_response (frs ! i) k = snd (two_outcomes ! i) k)"
    by auto
  have a0: "0 < length two_outcomes" and a1: "1 < length two_outcomes"
    by (simp_all add: len)
  from a[rule_format, OF a0] a[rule_format, OF a1] b l
  have "build_function_responses quiet_browser two_outcomes (operator [])
              = (Inr frs, \<lparr>trace = [Screenshot, ReadUrl], stdin = []\<rparr>)
        \<and> length frs = 2
        \<and> fr_name (frs ! 0) = ''click_at'' \<and> fr_name (frs ! 1) = ''type_text_at''
        \<and> fr_image (frs ! 0) = ''PNG'' \<and> fr_image (frs ! 1) = ''PNG''
        \<and> fr_response (frs ! 0) ''url'' = Some (PStr ''https://www.google.com/'')
        \<and> fr_response (frs ! 1) ''url'' = Some (PStr ''https://www.google.com/'')
        \<and> fr_response (frs ! 1) ''error'' = Some (PStr ''Target page has been closed'')"
    by (simp add: len fields env del: One_nat_def)
  with q show ?thesis by blast
qed

section \<open>The coordinate mapper\<close>

lemma pow2_nat: "0 \<le> s \<Longrightarrow> (2::rat) ^ nat s = 2 powi s"
  by (simp add: power_int_def)

lemma pow2_neg: "s < 0 \<Longrightarrow> (2::rat) ^ nat (- s) = 1 / 2 powi s"
  by (simp add: power_int_def field_simps)

lemma scaled_ge_iff:
  assumes "0 < b"
  shows "scaled_ge a b k \<longleftrightarrow> rat_of_int b * 2 powi k \<le> rat_of_int a"
proof (cases "0 \<le> k")
  case True
  have "scaled_ge a b k \<longleftrightarrow> rat_of_int (b * 2 ^ nat k) \<le> rat_of_int a"
    using True unfolding scaled_ge_def by (simp only: of_int_le_iff if_True)
  then show ?thesis using True by (simp add: pow2_nat del: of_int_le_iff)
next
  case False
  then have neg: "k < 0" by simp
  have p: "(0::rat) < 2 powi k" by simp
  have "scaled_ge a b k \<longleftrightarrow> rat_of_int b \<le> rat_of_int (a * 2 ^ nat (- k))"
    using False unfolding scaled_ge_def by (simp only: of_int_le_iff if_False)
  also have "\<dots> \<longleftrightarrow> rat_of_int b \<le> rat_of_int a / 2 powi k"
    using pow2_neg[OF neg] by simp
  also have "\<dots> \<longleftrightarrow> rat_of_int b * 2 powi k \<le> rat_of_int a"
    using p by (simp add: field_simps)
  finally show ?thesis .
qed

lemma bitlen_rat_bounds:
  assumes "0 < x"
  shows "2 powi (bitlen x - 1) \<le> rat_of_int x" and "rat_of_int x < 2 powi (bitlen x)"
proof -
  from bitlen_bounds[OF assms]
  have l: "2 ^ nat (bitlen x - 1) \<le> x" and u: "x < 2 ^ nat (bitlen x)" by simp_all
  have ge1: "1 \<le> bitlen x"
  proof (rule ccontr)
    assume "\<not> 1 \<le> bitlen x"
    then have "nat (bitlen x) = 0" by simp
    with u assms show False by simp
  qed
  from l have "rat_of_int (2 ^ nat (bitlen x - 1)) \<le> rat_of_int x"
    by (simp only: of_int_le_iff)
  then show "2 powi (bitlen x - 1) \<le> rat_of_int x"
    using ge1 by (simp add: pow2_nat del: of_int_le_iff)
  from u have "rat_of_int x < rat_of_int (2 ^ nat (bitlen x))"
    by (simp only: of_int_less_iff)
  then show "rat_of_int x < 2 powi (bitlen x)"
    using ge1 by (simp add: pow2_nat del: of_int_less_iff)
qed

lemma floor_log2_bounds:
  assumes "0 < a" "0 < b"
  shows "rat_of_int b * 2 powi (floor_log2 a b) \<le> rat_of_int a"
    and "rat_of_int a < rat_of_int b * 2 powi (floor_log2 a b + 1)"
proof -
  define k where "k = bitlen a - bitlen b"
  have bpos: "(0::rat) < of_int b" using assms by simp
  have up: "rat_of_int a < rat_of_int b * 2 powi (k + 1)"
  proof -
    have "rat_of_int a < 2 powi (bitlen a)" by (rule bitlen_rat_bounds[OF assms(1)])
    also have "bitlen a = (bitlen b - 1) + (k + 1)" by (simp add: k_def)
    also have "(2::rat) powi ((bitlen b - 1) + (k + 1)) = 2 powi (bitlen b - 1) * 2 powi (k + 1)"
      by (rule power_int_add) simp
    also have "\<dots> \<le> rat_of_int b * 2 powi (k + 1)"
      by (intro mult_right_mono bitlen_rat_bounds[OF assms(2)]) simp
    finally show ?thesis .
  qed
  have low: "rat_of_int b * 2 powi (k - 1) < rat_of_int a"
  proof -
    have "rat_of_int b * 2 powi (k - 1) < 2 powi (bitlen b) * 2 powi (k - 1)"
      by (intro mult_strict_right_mono bitlen_rat_bounds[OF assms(2)]) simp
    also have "\<dots> = 2 powi (bitlen b + (k - 1))"
      by (rule power_int_add[symmetric]) simp
    also have "bitlen b + (k - 1) = bitlen a - 1" by (simp add: k_def)
    also have "2 powi (bitlen a - 1) \<le> rat_of_int a" by (rule bitlen_rat_bounds[OF assms(1)])
    finally show ?thesis .
  qed
  show "rat_of_int b * 2 powi (floor_log2 a b) \<le> rat_of_int a"
    using low scaled_ge_iff[OF assms(2), of a k]
    by (auto simp: floor_log2_def pick_exp_def k_def[symmetric])
  show "rat_of_int a < rat_of_int b * 2 powi (floor_log2 a b + 1)"
    using up scaled_ge_iff[OF assms(2), of a k]
    by (auto simp: floor_log2_def pick_exp_def k_def[symmetric])
qed

lemma round_half_even_err:
  assumes "0 < d"
  shows "\<bar>rat_of_int (round_half_even n d) - rat_of_int n / rat_of_int d\<bar> \<le> 1 / 2"
proof -
  define q where "q = n div d"
  define r where "r = n mod d"
  have n: "n = d * q + r" by (simp add: q_def r_def)
  have r: "0 \<le> r" "r < d" using assms by (simp_all add: r_def)
  have dpos: "(0::rat) < of_int d" using assms by simp
  have frac: "rat_of_int n / rat_of_int d = rat_of_int q + rat_of_int r / rat_of_int d"
    using dpos by (simp add: n field_simps)
  have r0: "0 \<le> rat_of_int r / rat_of_int d" using r dpos by simp
  show ?thesis
  proof (cases "d < 2 * r \<or> (2 * r = d \<and> odd q)")
    case True
    then have "d \<le> 2 * r" by auto
    then have "rat_of_int d \<le> 2 * rat_of_int r"
      by (metis of_int_le_iff of_int_mult of_int_numeral)
    then have h: "1 / 2 \<le> rat_of_int r / rat_of_int d" using dpos by (simp add: field_simps)
    have "rat_of_int r < rat_of_int d" using r by simp
    then have h1: "rat_of_int r / rat_of_int d < 1" using dpos by (simp add: field_simps)
    have "round_half_even n d = q + 1"
      using True by (simp add: round_half_even_def round_up_def q_def r_def)
    then show ?thesis using h h1 by (simp add: frac)
  next
    case False
    then have "2 * r \<le> d" by auto
    then have "2 * rat_of_int r \<le> rat_of_int d"
      by (metis of_int_le_iff of_int_mult of_int_numeral)
    then have h: "rat_of_int r / rat_of_int d \<le> 1 / 2" using dpos by (simp add: field_simps)
    have "round_half_even n d = q"
      using False by (simp add: round_half_even_def round_up_def q_def r_def)
    then show ?thesis using h r0 by (simp add: frac)
  qed
qed

lemma round_scaled_err:
  assumes "0 < b"
  shows "\<bar>rat_of_int (round_scaled a b s) - rat_of_int a / rat_of_int b * 2 powi s\<bar> \<le> 1 / 2"
proof (cases "0 \<le> s")
  case True
  have "\<bar>rat_of_int (round_half_even (a * 2 ^ nat s) b)
          - rat_of_int (a * 2 ^ nat s) / rat_of_int b\<bar> \<le> 1 / 2"
    by (rule round_half_even_err[OF assms])
  then show ?thesis using True pow2_nat[OF True] by (simp add: round_scaled_def)
next
  case False
  then have neg: "s < 0" by simp
  have "0 < b * 2 ^ nat (- s)" using assms by simp
  then have "\<bar>rat_of_int (round_half_even a (b * 2 ^ nat (- s)))
          - rat_of_int a / rat_of_int (b * 2 ^ nat (- s))\<bar> \<le> 1 / 2"
    by (rule round_half_even_err)
  then show ?thesis using False pow2_neg[OF neg] by (simp add: round_scaled_def)
qed

lemma round_double_near:
  assumes "0 < a" "0 < b" "rat_of_int a < rat_of_int b * 2 ^ 1023"
  shows "\<exists>m e. round_double a b = Fin m e \<and> 0 < m
           \<and> \<bar>rat_of_int m * 2 powi e - rat_of_int a / rat_of_int b\<bar>
               \<le> rat_of_int a / rat_of_int b / 2 ^ 53"
proof -
  define ex where "ex = floor_log2 a b"
  define m where "m = round_scaled a b (52 - ex)"
  define x where "x = rat_of_int a / rat_of_int b"
  define p where "p = (2::rat) powi (ex - 52)"
  have bpos: "(0::rat) < of_int b" using assms by simp
  have ppos: "0 < p" by (simp add: p_def)
  have lo: "2 powi ex \<le> x"
    using floor_log2_bounds(1)[OF assms(1,2)] bpos
    by (simp add: x_def ex_def field_simps)
  have "rat_of_int b * 2 powi ex < rat_of_int b * 2 ^ 1023"
    using floor_log2_bounds(1)[OF assms(1,2)] assms(3) by (simp add: ex_def)
  then have lt: "(2::rat) powi ex < 2 powi 1023" using bpos by simp
  have ex: "ex < 1023"
  proof (rule ccontr)
    assume "\<not> ex < 1023"
    then have "(2::rat) powi 1023 \<le> 2 powi ex" by (intro power_int_increasing) simp_all
    with lt show False by simp
  qed
  have rd: "round_double a b = Fin m (ex - 52)"
    using assms(1) ex by (simp add: round_double_def round_at_def pack_def ex_def m_def)
  have pinv: "2 powi (52 - ex) = 1 / p"
    using power_int_minus[of "2::rat" "ex - 52"] by (simp add: p_def field_simps)
  have p52: "p = 2 powi ex / 2 ^ 52"
    using power_int_diff[of "2::rat" ex 52] by (simp add: p_def)
  have err: "\<bar>rat_of_int m - x / p\<bar> \<le> 1 / 2"
    using round_scaled_err[OF assms(2), of a "52 - ex"] by (simp add: m_def x_def pinv)
  have "\<bar>rat_of_int m * p - x\<bar> = p * \<bar>rat_of_int m - x / p\<bar>"
    using ppos by (simp add: abs_mult[symmetric] field_simps del: abs_mult)
  also have "\<dots> \<le> p * (1 / 2)" using ppos err by (intro mult_left_mono) simp_all
  also have "\<dots> = 2 powi ex / 2 ^ 53" by (simp add: p52)
  also have "\<dots> \<le> x / 2 ^ 53" using lo by (simp add: divide_right_mono)
  finally have near: "\<bar>rat_of_int m * p - x\<bar> \<le> x / 2 ^ 53" .
  have "2 ^ 52 \<le> x / p" using lo ppos by (simp add: p52 field_simps)
  moreover have "(1::rat) \<le> 2 ^ 52" by simp
  ultimately have "1 \<le> x / p" by (rule order_trans[rotated])
  with err have "0 < rat_of_int m" by linarith
  then have mpos: "0 < m" by simp
  show ?thesis using rd mpos near by (auto simp: p_def x_def)
qed

lemma int_of_float_floor:
  assumes "0 < m"
  shows "int_of_float (Fin m e) = Inr \<lfloor>rat_of_int m * 2 powi e\<rfloor>"
proof (cases "0 \<le> e")
  case True
  have "rat_of_int m * 2 powi e = rat_of_int (m * 2 ^ nat e)"
    using True by (simp add: pow2_nat)
  then have "\<lfloor>rat_of_int m * 2 powi e\<rfloor> = m * 2 ^ nat e"
    by (simp only: floor_of_int)
  then show ?thesis using True by simp
next
  case False
  then have neg: "e < 0" by simp
  have "rat_of_int m * 2 powi e = rat_of_int m / rat_of_int (2 ^ nat (- e))"
    using pow2_neg[OF neg] by simp
  then have "\<lfloor>rat_of_int m * 2 powi e\<rfloor> = m div 2 ^ nat (- e)"
    by (simp only: floor_divide_of_int_eq)
  then show ?thesis using False assms by simp
qed

lemma float_mul_exact:
  assumes "0 < m1" "0 < m2"
  shows "\<exists>a b. float_mul (Fin m1 e1) (Fin m2 e2) = round_double a b \<and> 0 < a \<and> 0 < b
           \<and> rat_of_int a / rat_of_int b
               = (rat_of_int m1 * 2 powi e1) * (rat_of_int m2 * 2 powi e2)"
proof -
  have split: "(2::rat) powi (e1 + e2) = 2 powi e1 * 2 powi e2"
    by (rule power_int_add) simp
  show ?thesis
  proof (cases "0 \<le> e1 + e2")
    case True
    have "rat_of_int (m1 * m2 * 2 ^ nat (e1 + e2)) / rat_of_int 1
            = (rat_of_int m1 * 2 powi e1) * (rat_of_int m2 * 2 powi e2)"
      using True by (simp add: pow2_nat split)
    moreover have "0 < m1 * m2 * 2 ^ nat (e1 + e2)" using assms by simp
    moreover have "float_mul (Fin m1 e1) (Fin m2 e2) = round_double (m1 * m2 * 2 ^ nat (e1 + e2)) 1"
      using True by simp
    ultimately show ?thesis by (metis zero_less_one)
  next
    case False
    then have neg: "e1 + e2 < 0" by simp
    have "rat_of_int (m1 * m2) / rat_of_int (2 ^ nat (- (e1 + e2)))
            = (rat_of_int m1 * 2 powi e1) * (rat_of_int m2 * 2 powi e2)"
      using pow2_neg[OF neg] by (simp add: split)
    moreover have "0 < m1 * m2" using assms by simp
    moreover have "(0::int) < 2 ^ nat (- (e1 + e2))" by simp
    moreover have "float_mul (Fin m1 e1) (Fin m2 e2)
        = round_double (m1 * m2) (2 ^ nat (- (e1 + e2)))"
      using False by simp
    ultimately show ?thesis by metis
  qed
qed

lemma scale_coord_inexact:
  assumes n: "0 < n" "n \<le> 1000"
    and w: "0 < w" "w * 3000 < 2 ^ 53"
    and fw: "float_of_int w = Inr (Fin mw ew)" "0 < mw"
      "rat_of_int mw * 2 powi ew = rat_of_int w"
    and r: "n * w mod 1000 \<noteq> 0"
  shows "scale_coord n w = Inr (n * w div 1000)"
proof -
  define D where "D = (2::rat) ^ 53"
  define t where "t = rat_of_int n / 1000"
  define W where "W = rat_of_int w"
  have D1: "1 \<le> D" by (simp add: D_def)
  have Dpos: "0 < D" by (simp add: D_def)
  have t0: "0 < t" and t1: "t \<le> 1" using n by (simp_all add: t_def)
  have W0: "0 < W" using w by (simp add: W_def)
  have "rat_of_int (w * 3000) < rat_of_int (2 ^ 53)" using w(2) by (simp only: of_int_less_iff)
  then have W3: "W * 3000 < D" by (simp add: W_def D_def)
  have big: "(2::rat) ^ 53 < 2 ^ 1023" by (rule power_strict_increasing) simp_all
  have tD: "t / D \<le> t" using t0 D1 Dpos by (simp add: field_simps)
  \<comment> \<open>the quotient\<close>
  have "rat_of_int n \<le> 1000" using n by simp
  also have "(1000::rat) < 1000 * 2 ^ 1023"
    using big D1 by (simp add: D_def)
  finally have "rat_of_int n < rat_of_int 1000 * 2 ^ 1023" by simp
  from round_double_near[OF n(1) _ this]
  obtain m1 e1 where q: "round_double n 1000 = Fin m1 e1" and m1: "0 < m1"
    and err1: "\<bar>rat_of_int m1 * 2 powi e1 - t\<bar> \<le> t / D"
    by (auto simp: t_def D_def)
  define v1 where "v1 = rat_of_int m1 * 2 powi e1"
  have v1_hi: "v1 \<le> 2" using err1 tD t1 by (simp add: v1_def abs_le_iff)
  have v1_lo: "0 < v1" using m1 by (simp add: v1_def)
  \<comment> \<open>the product\<close>
  from float_mul_exact[OF m1 fw(2), of e1 ew]
  obtain a b where mul: "float_mul (Fin m1 e1) (Fin mw ew) = round_double a b"
    and a: "0 < a" and b: "0 < b"
    and ab: "rat_of_int a / rat_of_int b = v1 * W"
    by (auto simp: v1_def W_def fw(3))
  have bpos: "0 < rat_of_int b" using b by simp
  have "v1 * W \<le> 2 * W" using v1_hi W0 by (intro mult_right_mono) simp_all
  also have "\<dots> < D" using W3 W0 by linarith
  also have "D < 2 ^ 1023" using big by (simp add: D_def)
  finally have "rat_of_int a / rat_of_int b < 2 ^ 1023" by (simp add: ab)
  then have "rat_of_int a < rat_of_int b * 2 ^ 1023" using bpos by (simp add: field_simps)
  from round_double_near[OF a b this]
  obtain m3 e3 where p: "round_double a b = Fin m3 e3" and m3: "0 < m3"
    and err3: "\<bar>rat_of_int m3 * 2 powi e3 - v1 * W\<bar> \<le> v1 * W / D"
    by (auto simp: ab D_def)
  define v3 where "v3 = rat_of_int m3 * 2 powi e3"
  have res: "scale_coord n w = Inr \<lfloor>v3\<rfloor>"
    using q fw(1) mul p int_of_float_floor[OF m3, of e3]
    by (simp add: scale_coord_def int_truediv_def v3_def)
  \<comment> \<open>the distance to the exact value\<close>
  define x where "x = t * W"
  have d1: "\<bar>v3 - v1 * W\<bar> \<le> 2 * W / D"
  proof -
    have "v1 * W / D \<le> 2 * W / D"
      using v1_hi W0 Dpos by (intro divide_right_mono mult_right_mono) simp_all
    with err3 show ?thesis by (simp add: v3_def)
  qed
  have d2: "\<bar>v1 * W - x\<bar> \<le> W / D"
  proof -
    have "v1 * W - x = W * (v1 - t)" by (simp add: x_def algebra_simps)
    then have "\<bar>v1 * W - x\<bar> = W * \<bar>v1 - t\<bar>"
      using W0 by (simp add: abs_mult)
    also have "\<dots> \<le> W * (t / D)" using err1 W0 by (intro mult_left_mono) (simp_all add: v1_def)
    also have "\<dots> \<le> W * (1 / D)"
      using t1 W0 Dpos by (intro mult_left_mono divide_right_mono) simp_all
    finally show ?thesis by simp
  qed
  have "\<bar>v3 - x\<bar> \<le> \<bar>v3 - v1 * W\<bar> + \<bar>v1 * W - x\<bar>" by simp
  also have "\<dots> \<le> 2 * W / D + W / D" using d1 d2 by simp
  also have "\<dots> = 3 * W / D" by simp
  also have "\<dots> < 1 / 1000" using W3 Dpos by (simp add: field_simps)
  finally have close: "\<bar>v3 - x\<bar> < 1 / 1000" .
  \<comment> \<open>the exact value is not near an integer\<close>
  define k where "k = n * w div 1000"
  define s where "s = n * w mod 1000"
  have s: "1 \<le> s" "s \<le> 999" using r by (simp_all add: s_def)
  have "n * w = 1000 * k + s" by (simp add: k_def s_def)
  then have "rat_of_int n * rat_of_int w = 1000 * rat_of_int k + rat_of_int s"
    by (metis of_int_add of_int_mult of_int_numeral)
  then have x: "x = rat_of_int k + rat_of_int s / 1000"
    by (simp add: x_def t_def W_def field_simps)
  have s1: "1 \<le> rat_of_int s" "rat_of_int s \<le> 999" using s by simp_all
  have c: "v3 - x < 1 / 1000" "x - v3 < 1 / 1000" using close by linarith+
  have "rat_of_int k \<le> v3" using c(2) x s1(1) by linarith
  moreover have "v3 < rat_of_int k + 1" using c(1) x s1(2) by linarith
  ultimately have "\<lfloor>v3\<rfloor> = k" by (rule floor_unique)
  with res show ?thesis by (simp add: k_def)
qed

lemma spec_map_div: "spec_map n w = n * w div 1000"
proof -
  have "rat_of_int n / 1000 * rat_of_int w = rat_of_int (n * w) / rat_of_int 1000"
    by simp
  then show ?thesis
    unfolding spec_map_def by (simp only: floor_divide_of_int_eq)
qed

lemma float_of_width: "float_of_int 1440 = Inr (Fin 6333186975989760 (- 42))"
  by code_simp

lemma float_of_height: "float_of_int 900 = Inr (Fin 7916483719987200 (- 43))"
  by code_simp

lemma width_exact: "rat_of_int 6333186975989760 * 2 powi (- 42) = rat_of_int 1440"
  by (simp add: power_int_minus)

lemma height_exact: "rat_of_int 7916483719987200 * 2 powi (- 43) = rat_of_int 900"
  by (simp add: power_int_minus)

lemma width_table:
  "list_all (\<lambda>k. scale_coord (25 * k) 1440
                    = Inr (36 * k - (if k = 7 \<or> k = 14 \<or> k = 23 \<or> k = 28 then 1 else 0)))
     [0..40]"
  by code_simp

lemma height_table:
  "list_all (\<lambda>k. scale_coord (10 * k) 900 = Inr (9 * k)) [0..100]"
  by code_simp

lemma width_multiple:
  assumes "(n::int) * 1440 mod 1000 = 0"
  shows "25 dvd n"
proof -
  from assms have "1000 dvd n * 1440" by (simp add: mod_eq_0_iff_dvd)
  then have "40 * 25 dvd 40 * (36 * n)" by (simp add: mult.commute)
  then have "25 dvd 36 * n" by (simp only: dvd_mult_cancel_left) simp
  then have "25 dvd 9 * (36 * n)" by (rule dvd_mult)
  moreover have "25 dvd 25 * (13 * n)" by (rule dvd_triv_left)
  ultimately have "25 dvd 25 * (13 * n) - 9 * (36 * n)" by (rule dvd_diff[rotated])
  then show ?thesis by simp
qed

lemma height_multiple:
  assumes "(n::int) * 900 mod 1000 = 0"
  shows "10 dvd n"
proof -
  from assms have "1000 dvd n * 900" by (simp add: mod_eq_0_iff_dvd)
  then have "100 * 10 dvd 100 * (9 * n)" by (simp add: mult.commute)
  then have "10 dvd 9 * n" by (simp only: dvd_mult_cancel_left) simp
  moreover have "10 dvd 10 * n" by (rule dvd_triv_left)
  ultimately have "10 dvd 10 * n - 9 * n" by (rule dvd_diff[rotated])
  then show ?thesis by simp
qed

lemma short_multiple: "(n::int) \<in> {175, 350, 575, 700} \<Longrightarrow> n * 1440 mod 1000 = 0"
  by auto

lemma scale_coord_width:
  assumes "0 \<le> n" "n \<le> 1000"
  shows "scale_coord n 1440
           = Inr (n * 1440 div 1000 - (if n \<in> {175, 350, 575, 700} then 1 else 0))"
proof (cases "n * 1440 mod 1000 = 0")
  case False
  then have "0 < n" using assms(1) by (cases "n = 0") simp_all
  from scale_coord_inexact[OF this assms(2) _ _ float_of_width _ width_exact False]
  have "scale_coord n 1440 = Inr (n * 1440 div 1000)" by simp
  moreover have "n \<notin> {175, 350, 575, 700}" using False short_multiple by blast
  ultimately show ?thesis by simp
next
  case True
  from width_multiple[OF True] obtain k where k: "n = 25 * k" by (rule dvdE)
  with assms have "k \<in> set [0..40]" by simp
  with width_table
  have "scale_coord (25 * k) 1440
          = Inr (36 * k - (if k = 7 \<or> k = 14 \<or> k = 23 \<or> k = 28 then 1 else 0))"
    by (simp add: list_all_iff)
  moreover have "25 * k * 1440 div 1000 = 36 * k" by simp
  ultimately show ?thesis by (simp add: k)
qed

lemma scale_coord_height:
  assumes "0 \<le> n" "n \<le> 1000"
  shows "scale_coord n 900 = Inr (n * 900 div 1000)"
proof (cases "n * 900 mod 1000 = 0")
  case False
  then have "0 < n" using assms(1) by (cases "n = 0") simp_all
  from scale_coord_inexact[OF this assms(2) _ _ float_of_height _ height_exact False]
  show ?thesis by simp
next
  case True
  from height_multiple[OF True] obtain k where k: "n = 10 * k" by (rule dvdE)
  with assms have "k \<in> set [0..100]" by simp
  with height_table have "scale_coord (10 * k) 900 = Inr (9 * k)"
    by (simp add: list_all_iff)
  moreover have "10 * k * 900 div 1000 = 9 * k" by simp
  ultimately show ?thesis by (simp add: k)
qed

lemma width_step: "((n::int) - 1) * 1440 div 1000 \<le> n * 1440 div 1000 - 1"
proof -
  have "(n - 1) * 1440 div 1000 \<le> (n * 1440 + (- 1) * 1000) div 1000"
    by (intro zdiv_mono1) (simp_all add: algebra_simps)
  also have "\<dots> = - 1 + n * 1440 div 1000" by (rule div_mult_self1) simp
  finally show ?thesis by simp
qed

lemma width_monotone:
  assumes "0 \<le> m" "m \<le> n" "n \<le> 1000"
  shows "m * 1440 div 1000 - (if m \<in> {175, 350, 575, 700} then 1 else 0)
       \<le> n * 1440 div 1000 - (if n \<in> {175, 350, 575, 700} then 1 else (0::int))"
proof (cases "m = n")
  case True
  then show ?thesis by simp
next
  case False
  with assms have "m \<le> n - 1" by simp
  then have "m * 1440 div 1000 \<le> (n - 1) * 1440 div 1000"
    by (intro zdiv_mono1) simp_all
  also have "\<dots> \<le> n * 1440 div 1000 - 1" by (rule width_step)
  finally have step: "m * 1440 div 1000 \<le> n * 1440 div 1000 - 1" .
  define cm :: int where "cm = (if m \<in> {175, 350, 575, 700} then 1 else 0)"
  define cn :: int where "cn = (if n \<in> {175, 350, 575, 700} then 1 else 0)"
  have "0 \<le> cm" "cn \<le> 1" by (simp_all add: cm_def cn_def)
  with step have "m * 1440 div 1000 - cm \<le> n * 1440 div 1000 - cn" by linarith
  then show ?thesis unfolding cm_def cn_def .
qed

lemma denorm_x_closed:
  assumes "0 \<le> n" "n \<le> 1000"
  shows "denorm_x (PInt n)
           = Inr (spec_map n SCREEN_WIDTH - (if n \<in> {175, 350, 575, 700} then 1 else 0))"
  using scale_coord_width[OF assms]
  by (simp add: denorm_x_def SCREEN_WIDTH_def spec_map_div)

lemma denorm_y_closed:
  assumes "0 \<le> n" "n \<le> 1000"
  shows "denorm_y (PInt n) = Inr (spec_map n SCREEN_HEIGHT)"
  using scale_coord_height[OF assms]
  by (simp add: denorm_y_def SCREEN_HEIGHT_def spec_map_div)

lemma denorm_x_monotone:
  assumes "0 \<le> m" "m \<le> n" "n \<le> 1000"
  shows "\<exists>a b. denorm_x (PInt m) = Inr a \<and> denorm_x (PInt n) = Inr b \<and> a \<le> b"
proof -
  have m: "0 \<le> m" "m \<le> 1000" and n: "0 \<le> n" "n \<le> 1000" using assms by simp_all
  show ?thesis
    using denorm_x_closed[OF m] denorm_x_closed[OF n] width_monotone[OF assms]
    by (simp add: spec_map_div SCREEN_WIDTH_def)
qed

lemma denorm_y_monotone:
  assumes "0 \<le> m" "m \<le> n" "n \<le> 1000"
  shows "\<exists>a b. denorm_y (PInt m) = Inr a \<and> denorm_y (PInt n) = Inr b \<and> a \<le> b"
proof -
  have m: "0 \<le> m" "m \<le> 1000" and n: "0 \<le> n" "n \<le> 1000" using assms by simp_all
  have "m * 900 div 1000 \<le> n * 900 div 1000"
    using assms(2) by (intro zdiv_mono1) simp_all
  then show ?thesis
    using denorm_y_closed[OF m] denorm_y_closed[OF n]
    by (simp add: spec_map_div SCREEN_HEIGHT_def)
qed

text \<open>
  C6. For every integer \<open>n\<close> from 0 to 1000 the mapper returns
  \<open>floor (n / 1000 * extent)\<close>. The code computes the quotient and the product in
  double precision, and at \<open>x = 175\<close> the product of the double nearest to \<open>0.175\<close>
  with 1440 is rounded to a double below 252: the mapper returns 251.
\<close>

theorem mapper_below_floor_at_175:
  "denorm_x (PInt 175) = Inr 251 \<and> spec_map 175 SCREEN_WIDTH = 252
   \<and> denormalize_x (PInt 175) SCREEN_WIDTH = Inr 251"
proof -
  have "scale_coord 175 1440 = Inr 251"
    using scale_coord_width[of 175] by simp
  then show ?thesis
    by (simp add: denorm_x_def denormalize_x_def SCREEN_WIDTH_def spec_map_div)
qed

text \<open>
  C6, as the code has it: on the 1440 by 900 viewport, for every integer \<open>n\<close> from 0
  to 1000, \<^verbatim>\<open>denorm_y\<close> returns \<open>floor (n / 1000 * 900)\<close>, and \<^verbatim>\<open>denorm_x\<close>
  returns \<open>floor (n / 1000 * 1440)\<close> except at 175, 350, 575 and 700, where the double
  rounding makes it one less; the functions of \<^verbatim>\<open>app.py\<close> agree with them. The ends
  map to 0 and to the extent, 500 maps to 720 and 450, and the mapping is monotonic.
\<close>

theorem mapper_double_rounding:
  "(\<forall>n\<in>{0..1000}.
        denorm_x (PInt n)
          = Inr (spec_map n SCREEN_WIDTH - (if n \<in> {175, 350, 575, 700} then 1 else 0))
      \<and> denorm_y (PInt n) = Inr (spec_map n SCREEN_HEIGHT)
      \<and> denormalize_x (PInt n) SCREEN_WIDTH = denorm_x (PInt n)
      \<and> denormalize_y (PInt n) SCREEN_HEIGHT = denorm_y (PInt n))
   \<and> denorm_x (PInt 0) = Inr 0 \<and> denorm_x (PInt 1000) = Inr SCREEN_WIDTH
   \<and> denorm_y (PInt 0) = Inr 0 \<and> denorm_y (PInt 1000) = Inr SCREEN_HEIGHT
   \<and> denorm_x (PInt 500) = Inr 720 \<and> denorm_y (PInt 500) = Inr 450
   \<and> (\<forall>m\<in>{0..1000}. \<forall>n\<in>{0..1000}. m \<le> n \<longrightarrow>
          (\<exists>a b. denorm_x (PInt m) = Inr a \<and> denorm_x (PInt n) = Inr b \<and> a \<le> b)
        \<and> (\<exists>a b. denorm_y (PInt m) = Inr a \<and> denorm_y (PInt n) = Inr b \<and> a \<le> b))"
proof (intro conjI ballI impI)
  fix n :: int
  assume "n \<in> {0..1000}"
  then have n: "0 \<le> n" "n \<le> 1000" by simp_all
  show "denorm_x (PInt n)
          = Inr (spec_map n SCREEN_WIDTH - (if n \<in> {175, 350, 575, 700} then 1 else 0))"
    by (rule denorm_x_closed[OF n])
  show "denorm_y (PInt n) = Inr (spec_map n SCREEN_HEIGHT)"
    by (rule denorm_y_closed[OF n])
  show "denormalize_x (PInt n) SCREEN_WIDTH = denorm_x (PInt n)"
    by (simp add: denormalize_x_def denorm_x_def)
  show "denormalize_y (PInt n) SCREEN_HEIGHT = denorm_y (PInt n)"
    by (simp add: denormalize_y_def denorm_y_def)
next
  show "denorm_x (PInt 0) = Inr 0"
    using denorm_x_closed[of 0] by (simp add: spec_map_div)
  show "denorm_x (PInt 1000) = Inr SCREEN_WIDTH"
    using denorm_x_closed[of 1000] by (simp add: spec_map_div)
  show "denorm_y (PInt 0) = Inr 0"
    using denorm_y_closed[of 0] by (simp add: spec_map_div)
  show "denorm_y (PInt 1000) = Inr SCREEN_HEIGHT"
    using denorm_y_closed[of 1000] by (simp add: spec_map_div)
  show "denorm_x (PInt 500) = Inr 720"
    using denorm_x_closed[of 500] by (simp add: spec_map_div SCREEN_WIDTH_def)
  show "denorm_y (PInt 500) = Inr 450"
    using denorm_y_closed[of 500] by (simp add: spec_map_div SCREEN_HEIGHT_def)
next
  fix m n :: int
  assume "m \<in> {0..1000}" "n \<in> {0..1000}" "m \<le> n"
  then have mn: "0 \<le> m" "m \<le> n" "n \<le> 1000" by simp_all
  show "\<exists>a b. denorm_x (PInt m) = Inr a \<and> denorm_x (PInt n) = Inr b \<and> a \<le> b"
    by (rule denorm_x_monotone[OF mn])
  show "\<exists>a b. denorm_y (PInt m) = Inr a \<and> denorm_y (PInt n) = Inr b \<and> a \<le> b"
    by (rule denorm_y_monotone[OF mn])
qed

theorem mapper_double_rounding_witness:
  "(174::int) \<in> {0..1000} \<and> (175::int) \<in> {0..1000} \<and> (174::int) \<le> 175
   \<and> denorm_x (PInt 174) = Inr 250 \<and> denorm_x (PInt 175) = Inr 251
   \<and> denorm_y (PInt 175) = Inr 157
   \<and> denormalize_x (PInt 175) SCREEN_WIDTH = Inr 251
   \<and> (\<exists>a b. denorm_x (PInt 174) = Inr a \<and> denorm_x (PInt 175) = Inr b \<and> a \<le> b)"
proof -
  have a: "(174::int) \<in> {0..1000}" and b: "(175::int) \<in> {0..1000}" and c: "(174::int) \<le> 175"
    by simp_all
  have s: "spec_map 174 SCREEN_WIDTH = 250" "spec_map 175 SCREEN_WIDTH = 252"
    "spec_map 175 SCREEN_HEIGHT = 157"
    by (simp_all add: spec_map_div SCREEN_WIDTH_def SCREEN_HEIGHT_def)
  note all = mapper_double_rounding
  from all have p: "\<forall>n\<in>{0..1000}.
        denorm_x (PInt n)
          = Inr (spec_map n SCREEN_WIDTH - (if n \<in> {175, 350, 575, 700} then 1 else 0))
      \<and> denorm_y (PInt n) = Inr (spec_map n SCREEN_HEIGHT)
      \<and> denormalize_x (PInt n) SCREEN_WIDTH = denorm_x (PInt n)
      \<and> denormalize_y (PInt n) SCREEN_HEIGHT = denorm_y (PInt n)"
    by (rule conjunct1)
  from all have q: "\<forall>m\<in>{0..1000}. \<forall>n\<in>{0..1000}. m \<le> n \<longrightarrow>
          (\<exists>a b. denorm_x (PInt m) = Inr a \<and> denorm_x (PInt n) = Inr b \<and> a \<le> b)
        \<and> (\<exists>a b. denorm_y (PInt m) = Inr a \<and> denorm_y (PInt n) = Inr b \<and> a \<le> b)"
    by (elim conjE)
  from bspec[OF p a] bspec[OF p b] bspec[OF bspec[OF q a] b] c s a b
  show ?thesis by simp
qed

end
